theory Spec2Isabelle
  imports Complex_Main "HOL-Library.Sublist" "HOL-Library.AList" "HOL-Library.Log_Nat"
begin

section \<open>Strings of the host language\<close>

text \<open>
  A JavaScript string is a sequence of UTF-16 code units; it is modelled as the list of
  its code units, each a natural number. ASCII literals of the source are written with
  \<open>str\<close>. \<open>toLowerCase\<close> lowers the letters A to Z and leaves every other code unit
  as it is (the case table of the host for the rest of Unicode is not part of the
  repository). \<open>trim\<close> removes the white space and line terminators of ECMAScript
  from both ends; the class \<open>\s\<close> of a regular expression is the same set.
\<close>

type_synonym jstring = "nat list"

definition str :: "string \<Rightarrow> jstring" where
  "str s = map of_char s"

definition toLowerCase :: "jstring \<Rightarrow> jstring" where
  "toLowerCase s = map (\<lambda>c. if 65 \<le> c \<and> c \<le> 90 then c + 32 else c) s"

definition toUpperCase :: "jstring \<Rightarrow> jstring" where
  "toUpperCase s = map (\<lambda>c. if 97 \<le> c \<and> c \<le> 122 then c - 32 else c) s"

definition isWhiteSpace :: "nat \<Rightarrow> bool" where
  "isWhiteSpace c \<longleftrightarrow>
     c = 9 \<or> c = 10 \<or> c = 11 \<or> c = 12 \<or> c = 13 \<or> c = 32 \<or> c = 160 \<or> c = 5760
     \<or> (8192 \<le> c \<and> c \<le> 8202) \<or> c = 8232 \<or> c = 8233 \<or> c = 8239 \<or> c = 8287
     \<or> c = 12288 \<or> c = 65279"

definition trimStart :: "jstring \<Rightarrow> jstring" where
  "trimStart s = dropWhile isWhiteSpace s"

definition trim :: "jstring \<Rightarrow> jstring" where
  "trim s = rev (dropWhile isWhiteSpace (rev (dropWhile isWhiteSpace s)))"

text \<open>\<open>s.includes(t)\<close>: \<open>t\<close> occurs in \<open>s\<close> as a contiguous run of code units.\<close>

fun str_includes :: "jstring \<Rightarrow> jstring \<Rightarrow> bool" where
  "str_includes [] t = (t = [])"
| "str_includes (c # s) t = (prefix t (c # s) \<or> str_includes s t)"

section \<open>Column resolution\<close>

text \<open>
  A raw row is an object whose own properties are the columns of the CSV record. It is
  modelled as the list of its (column name, value) pairs in the order of
  \<open>Object.keys\<close>; the names of one row are distinct.
\<close>

type_synonym row = "(jstring \<times> jstring) list"

datatype field =
  Rating | PizzaType | Feeling | OrderAgain | Tier | OneWord | ColdPizza | Comments | Timestamp

fun COLUMN_MAPPINGS :: "field \<Rightarrow> jstring list" where
  "COLUMN_MAPPINGS Rating =
     [str ''Rate the overall taste of the pizza:'', str ''Rate this pizza (1-10)'',
      str ''Rating'', str ''Score'', str ''rate'', str ''rating'']"
| "COLUMN_MAPPINGS PizzaType =
     [str ''What pizza did you try?'', str ''Which pizza did you try?'', str ''Pizza Type'',
      str ''Pizza'', str ''pizza type'', str ''Which pizza'']"
| "COLUMN_MAPPINGS Feeling =
     [str ''How do you feel after eating this pizza'', str ''How do you feel after eating?'',
      str ''Feeling'', str ''How do you feel'', str ''feeling'']"
| "COLUMN_MAPPINGS OrderAgain =
     [str ''Would you want this pizza again'', str ''Would you order again?'',
      str ''Order Again'', str ''Would order again'', str ''order again'']"
| "COLUMN_MAPPINGS Tier =
     [str ''Where does this land'', str ''Pizza tier ranking'', str ''Tier'', str ''Ranking'',
      str ''tier ranking'']"
| "COLUMN_MAPPINGS OneWord =
     [str ''Describe this pizza in ONE word'', str ''One word to describe'', str ''One Word'',
      str ''Describe'', str ''one word'']"
| "COLUMN_MAPPINGS ColdPizza =
     [str ''eat this pizza cold'', str ''Cold pizza preference'', str ''Cold Pizza'',
      str ''cold pizza'']"
| "COLUMN_MAPPINGS Comments =
     [str ''Elaborate'', str ''Additional comments'', str ''Comments'', str ''Feedback'',
      str ''comments'']"
| "COLUMN_MAPPINGS Timestamp =
     [str ''Timestamp'', str ''Date'', str ''Submitted'', str ''timestamp'']"

text \<open>The test of \<open>keys.find\<close> in \<open>findColumn\<close>.\<close>

definition columnMatches :: "jstring \<Rightarrow> jstring \<Rightarrow> bool" where
  "columnMatches mapping k \<longleftrightarrow>
     str_includes (toLowerCase k) (toLowerCase mapping)
     \<or> str_includes (toLowerCase mapping) (toLowerCase k)"

text \<open>
  The loop over the aliases. \<open>if (found) return found\<close> tests the truthiness of the
  column name: an empty name that \<open>keys.find\<close> returns does not end the loop.
\<close>

fun findColumnIn :: "jstring list \<Rightarrow> jstring list \<Rightarrow> jstring option" where
  "findColumnIn keys [] = None"
| "findColumnIn keys (mapping # mappings) =
     (case find (columnMatches mapping) keys of
        Some found \<Rightarrow> if found \<noteq> [] then Some found else findColumnIn keys mappings
      | None \<Rightarrow> findColumnIn keys mappings)"

definition findColumn :: "row \<Rightarrow> field \<Rightarrow> jstring option" where
  "findColumn row field = findColumnIn (map fst row) (COLUMN_MAPPINGS field)"

text \<open>
  \<open>row[column]\<close> reads the value of a column that \<open>findColumn\<close> took from the keys of
  the same row, so the lookup always finds it.
\<close>

definition getValue :: "row \<Rightarrow> field \<Rightarrow> jstring" where
  "getValue row field =
     (case findColumn row field of
        None \<Rightarrow> []
      | Some column \<Rightarrow> (case map_of row column of Some v \<Rightarrow> v | None \<Rightarrow> []))"


section \<open>Numbers and other services of the host\<close>

text \<open>
  A JavaScript number is a double. Finite doubles are modelled by the rationals they
  denote, and every arithmetic operation of the source is followed by \<open>roundDouble\<close>,
  the rounding to the nearest double with ties going to the even significand: 53 bits of
  significand, the exponents of binary64 from -1022 upwards, subnormal numbers below.
  The pipeline computes no number beyond the range of doubles; only \<open>parseFloat\<close> can
  meet one, and turns it into an infinity. Counters of rows are natural numbers: they
  stay far below \<open>2^53\<close>, where the addition of doubles is exact.
\<close>

text \<open>The binary exponent \<open>e\<close> of a positive rational: \<open>2^e \<le> x < 2^(e+1)\<close>.\<close>

definition bexp :: "rat \<Rightarrow> int" where
  "bexp x =
     (let p = fst (quotient_of x); q = snd (quotient_of x); e0 = bitlen p - bitlen q
      in if 2 powi e0 \<le> x then e0 else e0 - 1)"

definition roundHalfEven :: "rat \<Rightarrow> int" where
  "roundHalfEven m =
     (let f = \<lfloor>m\<rfloor>
      in if m - of_int f < 1 / 2 then f
         else if 1 / 2 < m - of_int f then f + 1
         else if even f then f else f + 1)"

text \<open>The distance of neighbouring doubles around \<open>x\<close>.\<close>

definition quantum :: "rat \<Rightarrow> rat" where
  "quantum x = 2 powi (max (bexp \<bar>x\<bar>) (- 1022) - 52)"

definition roundDouble :: "rat \<Rightarrow> rat" where
  "roundDouble x =
     (if x = 0 then 0
      else sgn x * of_int (roundHalfEven (\<bar>x\<bar> / quantum x)) * quantum x)"

text \<open>
  The host parses and formats dates: \<open>dateParse h t\<close> is the time value of
  \<open>new Date(t)\<close>, \<open>None\<close> for an invalid date; \<open>toLocaleDateString h d\<close> is the en-US
  short form of the date with time value \<open>d\<close>. \<open>hostWithoutDates\<close> takes no string for
  a date; it serves in examples that have no timestamp.
\<close>

record host =
  dateParse :: "jstring \<Rightarrow> int option"
  toLocaleDateString :: "int \<Rightarrow> jstring"

definition hostWithoutDates :: host where
  "hostWithoutDates = \<lparr>dateParse = (\<lambda>t. None), toLocaleDateString = (\<lambda>d. [])\<rparr>"

datatype number = NaN | NegInfinity | Finite rat | PosInfinity

definition isDigit :: "nat \<Rightarrow> bool" where
  "isDigit c \<longleftrightarrow> 48 \<le> c \<and> c \<le> 57"

definition digitsValue :: "jstring \<Rightarrow> nat" where
  "digitsValue ds = foldl (\<lambda>a c. 10 * a + (c - 48)) 0 ds"

text \<open>The exponent part of a decimal literal: \<open>e\<close> or \<open>E\<close>, an optional sign, digits.\<close>

definition exponentPart :: "jstring \<Rightarrow> int" where
  "exponentPart s =
     (case s of
        [] \<Rightarrow> 0
      | c # r \<Rightarrow>
          if c = 101 \<or> c = 69 then
            (let sgn = (case r of [] \<Rightarrow> 1 | d # _ \<Rightarrow> if d = 45 then - 1 else (1 :: int));
                 r' = (case r of [] \<Rightarrow> [] | d # r'' \<Rightarrow> if d = 45 \<or> d = 43 then r'' else r);
                 ds = takeWhile isDigit r'
             in if ds = [] then 0 else sgn * int (digitsValue ds))
          else 0)"

definition scale10 :: "rat \<Rightarrow> int \<Rightarrow> rat" where
  "scale10 v e = (if 0 \<le> e then v * 10 ^ nat e else v / 10 ^ nat (- e))"

text \<open>
  \<open>parseFloat\<close>: leading white space is skipped and the longest prefix that is a decimal
  literal is read; without such a prefix the result is NaN. The value of the literal is
  rounded to a double, and is an infinity when that is beyond the range of doubles.
\<close>

definition parseFloat :: "jstring \<Rightarrow> number" where
  "parseFloat s =
     (let t = trimStart s;
          neg = (case t of [] \<Rightarrow> False | c # _ \<Rightarrow> c = 45);
          t1 = (case t of [] \<Rightarrow> [] | c # r \<Rightarrow> if c = 45 \<or> c = 43 then r else t)
      in if prefix (str ''Infinity'') t1 then (if neg then NegInfinity else PosInfinity)
         else
           (let ip = takeWhile isDigit t1;
                r1 = dropWhile isDigit t1;
                dot = (case r1 of [] \<Rightarrow> False | c # _ \<Rightarrow> c = 46);
                fp = (if dot then takeWhile isDigit (tl r1) else []);
                r2 = (if dot then dropWhile isDigit (tl r1) else r1)
            in if ip = [] \<and> fp = [] then NaN
               else
                 (let v = roundDouble
                            (scale10 (of_nat (digitsValue (ip @ fp)))
                               (exponentPart r2 - int (length fp)))
                  in if 2 ^ 1024 \<le> v then (if neg then NegInfinity else PosInfinity)
                     else Finite (if neg then - v else v))))"

text \<open>\<open>Math.round\<close>: the nearest integer, a tie going up.\<close>

definition mathRound :: "rat \<Rightarrow> int" where
  "mathRound x = \<lfloor>x + 1 / 2\<rfloor>"

text \<open>\<open>Math.round((count / total) * 100)\<close>, as every reducer with percentages writes it.\<close>

definition percentOf :: "nat \<Rightarrow> nat \<Rightarrow> int" where
  "percentOf c n =
     mathRound (roundDouble (roundDouble (of_nat c / of_nat n) * 100))"

section \<open>Objects used as dictionaries\<close>

text \<open>
  An object that the source fills under computed keys is modelled as the association
  list of its own properties in the order of their creation. \<open>Object.entries\<close> and
  \<open>Object.values\<close> list the keys that are array indices first, in ascending numeric
  order, and the other keys in the order of creation. Properties inherited from
  \<open>Object.prototype\<close> are not modelled: the model describes the inputs none of whose
  keys is the name of such a property (\<open>constructor\<close>, \<open>__proto__\<close>,
  \<open>__defineGetter__\<close> and the like).
\<close>

definition isArrayIndex :: "jstring \<Rightarrow> bool" where
  "isArrayIndex k \<longleftrightarrow>
     k \<noteq> [] \<and> list_all isDigit k \<and> (k = [48] \<or> hd k \<noteq> 48) \<and> digitsValue k < 2 ^ 32 - 1"

definition objectEntries :: "(jstring \<times> 'v) list \<Rightarrow> (jstring \<times> 'v) list" where
  "objectEntries kvs =
     sort_key (\<lambda>kv. digitsValue (fst kv)) (filter (\<lambda>kv. isArrayIndex (fst kv)) kvs)
     @ filter (\<lambda>kv. \<not> isArrayIndex (fst kv)) kvs"

definition objectValues :: "(jstring \<times> 'v) list \<Rightarrow> 'v list" where
  "objectValues kvs = map snd (objectEntries kvs)"

text \<open>\<open>v || 0\<close> for a counter that may be undefined.\<close>

definition orZero :: "nat option \<Rightarrow> nat" where
  "orZero v = (case v of None \<Rightarrow> 0 | Some c \<Rightarrow> c)"

text \<open>\<open>xs.sort((a, b) => b.count - a.count)\<close>: descending by count, stable.\<close>

definition sortByCountDesc :: "('a \<Rightarrow> nat) \<Rightarrow> 'a list \<Rightarrow> 'a list" where
  "sortByCountDesc cnt xs = sort_key (\<lambda>x. - int (cnt x)) xs"

section \<open>Splitting\<close>

text \<open>\<open>s.split(/[...]/)\<close> for a class of single separator characters.\<close>

fun splitOn :: "(nat \<Rightarrow> bool) \<Rightarrow> jstring \<Rightarrow> jstring list" where
  "splitOn P [] = [[]]"
| "splitOn P (c # s) =
     (if P c then [] # splitOn P s
      else (case splitOn P s of [] \<Rightarrow> [[c]] | w # ws \<Rightarrow> (c # w) # ws))"

text \<open>
  \<open>s.split(/[...]+/)\<close>: a run of separators separates once, so no empty piece arises
  between two separators; the first and the last piece may be empty.
\<close>

definition splitRuns :: "(nat \<Rightarrow> bool) \<Rightarrow> jstring \<Rightarrow> jstring list" where
  "splitRuns P s =
     (case splitOn P s of
        [] \<Rightarrow> []
      | [w] \<Rightarrow> [w]
      | w # ws \<Rightarrow> w # filter (\<lambda>x. x \<noteq> []) (butlast ws) @ [last ws])"

section \<open>The aggregate result\<close>

record summary_result =
  totalResponses :: nat
  dateRange :: jstring

record rating_result =
  average :: rat
  count :: nat
  distribution :: "(int \<times> nat) list"

record 'a aggregate =
  items :: "'a list"
  total :: nat

record pizza_item =
  name :: jstring
  count :: nat

record feeling_entry =
  original :: jstring
  emoji :: jstring
  color :: jstring
  count :: nat

record feeling_item =
  feeling :: jstring
  count :: nat
  percentage :: int
  emoji :: jstring
  color :: jstring

record share =
  count :: nat
  percentage :: int

record order_result =
  yes :: share
  meh :: share
  total :: nat

record tier_entry =
  count :: nat
  icon :: jstring
  color :: jstring

record tier_item =
  name :: jstring
  count :: nat
  percentage :: int
  icon :: jstring
  color :: jstring

record word_item =
  "text" :: jstring
  count :: nat

record preference_entry =
  count :: nat
  color :: jstring

record cold_item =
  label :: jstring
  count :: nat
  percentage :: int
  color :: jstring

record result =
  summary :: summary_result
  rating :: rating_result
  pizzaPopularity :: "pizza_item aggregate"
  feelings :: "feeling_item aggregate"
  orderAgain :: order_result
  tiers :: "tier_item aggregate"
  wordCloud :: "word_item list"
  coldPizza :: "cold_item aggregate"
  comments :: "jstring list"

section \<open>Summary\<close>

definition formatDate :: "host \<Rightarrow> int \<Rightarrow> jstring" where
  "formatDate h date = toLocaleDateString h date"

text \<open>
  \<open>timestamps\<close> holds the time values of the valid dates; \<open>Math.min\<close> and \<open>Math.max\<close>
  are taken only when it is not empty.
\<close>

definition processSummary :: "host \<Rightarrow> row list \<Rightarrow> summary_result" where
  "processSummary h data =
     (let timestamps =
            List.map_filter (dateParse h)
              (filter (\<lambda>t. t \<noteq> []) (map (\<lambda>row. getValue row Timestamp) data))
      in \<lparr>totalResponses = length data,
          dateRange =
            (case timestamps of
               [] \<Rightarrow> str ''Unknown''
             | d # ds \<Rightarrow>
                 formatDate h (fold min ds d) @ str '' - '' @ formatDate h (fold max ds d))\<rparr>)"

section \<open>Rating\<close>

text \<open>The filter \<open>!isNaN(r) && r >= 1 && r <= 10\<close>: only a finite number passes.\<close>

fun retained :: "number \<Rightarrow> rat option" where
  "retained (Finite r) = (if 1 \<le> r \<and> r \<le> 10 then Some r else None)"
| "retained NaN = None"
| "retained NegInfinity = None"
| "retained PosInfinity = None"

definition bumpBucket :: "int \<Rightarrow> (int \<times> nat) list \<Rightarrow> (int \<times> nat) list" where
  "bumpBucket rounded buckets =
     AList.update rounded (orZero (map_of buckets rounded) + 1) buckets"

definition ratingsOf :: "row list \<Rightarrow> rat list" where
  "ratingsOf data =
     List.map_filter (\<lambda>row. retained (parseFloat (getValue row Rating))) data"

definition processRating :: "row list \<Rightarrow> rating_result" where
  "processRating data =
     (let ratings = ratingsOf data
      in if length ratings = 0 then \<lparr>average = 0, count = 0, distribution = []\<rparr>
         else
           (let avg = roundDouble
                        (foldl (\<lambda>a b. roundDouble (a + b)) 0 ratings / of_nat (length ratings));
                buckets = fold (\<lambda>r d. bumpBucket (mathRound r) d) ratings
                            (map (\<lambda>i. (i, 0)) [1..10])
            in \<lparr>average = roundDouble (of_int (mathRound (roundDouble (avg * 10))) / 10),
                count = length ratings,
                distribution = buckets\<rparr>))"

section \<open>Pizza popularity\<close>

definition pizzaNameMappings :: "(jstring \<times> jstring) list" where
  "pizzaNameMappings =
     [(str ''cheese'', str ''Cheese''),
      (str ''plain cheese'', str ''Cheese''),
      (str ''pepperoni'', str ''Pepperoni''),
      (str ''pep'', str ''Pepperoni''),
      (str ''chicken pesto'', str ''Chicken Pesto''),
      (str ''pesto chicken'', str ''Chicken Pesto''),
      (str ''veggie'', str ''Veggie Supreme''),
      (str ''vegetable'', str ''Veggie Supreme''),
      (str ''veggie supreme'', str ''Veggie Supreme''),
      (str ''meat lovers'', str ''Meat Lovers''),
      (str ''meat lover'', str ''Meat Lovers''),
      (str ''meatlover'', str ''Meat Lovers''),
      (str ''hawaiian'', str ''Hawaiian''),
      (str ''hawaii'', str ''Hawaiian'')]"

definition normalizePizzaName :: "jstring \<Rightarrow> jstring" where
  "normalizePizzaName pizza =
     (let lowered = trim (toLowerCase pizza)
      in case map_of pizzaNameMappings lowered of
           Some n \<Rightarrow> n
         | None \<Rightarrow> toUpperCase (take 1 pizza) @ drop 1 pizza)"

text \<open>\<open>value.split(/[,;]/).map(p => p.trim()).filter(p => p)\<close>\<close>

definition pizzaTokens :: "jstring \<Rightarrow> jstring list" where
  "pizzaTokens v = filter (\<lambda>p. p \<noteq> []) (map trim (splitOn (\<lambda>c. c = 44 \<or> c = 59) v))"

definition countPizza :: "jstring \<Rightarrow> (jstring \<times> nat) list \<Rightarrow> (jstring \<times> nat) list" where
  "countPizza pizza counts =
     (let normalized = normalizePizzaName pizza
      in AList.update normalized (orZero (map_of counts normalized) + 1) counts)"

definition pizzaRow :: "row \<Rightarrow> (jstring \<times> nat) list \<Rightarrow> (jstring \<times> nat) list" where
  "pizzaRow row counts =
     (let v = getValue row PizzaType
      in if v = [] then counts else fold countPizza (pizzaTokens v) counts)"

definition processPizzaPopularity :: "row list \<Rightarrow> pizza_item aggregate" where
  "processPizzaPopularity data =
     (let counts = fold pizzaRow data [];
          sorted = map (\<lambda>(n, c). \<lparr>pizza_item.name = n, count = c\<rparr>)
                     (sort_key (\<lambda>e. - int (snd e)) (objectEntries counts))
      in \<lparr>items = sorted, total = foldl (\<lambda>sum item. sum + pizza_item.count item) 0 sorted\<rparr>)"

section \<open>Feelings\<close>

text \<open>
  The regular expression of the source has the flag \<open>u\<close>: it reads the string by code
  points, a high surrogate followed by a low surrogate being one code point.
\<close>

fun codePoints :: "jstring \<Rightarrow> jstring list" where
  "codePoints [] = []"
| "codePoints [c] = [[c]]"
| "codePoints (c # d # s) =
     (if 0xD800 \<le> c \<and> c \<le> 0xDBFF \<and> 0xDC00 \<le> d \<and> d \<le> 0xDFFF
      then [c, d] # codePoints s
      else [c] # codePoints (d # s))"

fun codePointValue :: "jstring \<Rightarrow> nat" where
  "codePointValue [c, d] = 0x10000 + (c - 0xD800) * 0x400 + (d - 0xDC00)"
| "codePointValue [c] = c"
| "codePointValue _ = 0"

text \<open>\<open>/[\u{1F300}-\u{1F9FF}]|[\u{2600}-\u{26FF}]|[\u{2700}-\u{27BF}]/gu\<close>\<close>

definition emojiRegex :: "jstring \<Rightarrow> bool" where
  "emojiRegex p \<longleftrightarrow>
     (let cp = codePointValue p
      in (0x1F300 \<le> cp \<and> cp \<le> 0x1F9FF) \<or> (0x2600 \<le> cp \<and> cp \<le> 0x26FF)
         \<or> (0x2700 \<le> cp \<and> cp \<le> 0x27BF))"

text \<open>\<open>value.match(emojiRegex)\<close>: all matches in order, the empty list for \<open>null\<close>.\<close>

definition matchEmoji :: "jstring \<Rightarrow> jstring list" where
  "matchEmoji v = filter emojiRegex (codePoints v)"

text \<open>\<open>s.replace(emojiRegex, '')\<close>\<close>

definition removeEmoji :: "jstring \<Rightarrow> jstring" where
  "removeEmoji s = concat (filter (\<lambda>p. \<not> emojiRegex p) (codePoints s))"

definition colorMap :: "(jstring \<times> jstring) list" where
  "colorMap =
     [(str ''joy'', str ''#F1C40F''),
      (str ''regret'', str ''#E67E22''),
      (str ''shame'', str ''#9B59B6''),
      (str ''happy'', str ''#F1C40F''),
      (str ''satisfied'', str ''#2ECC71'')]"

text \<open>The loop over \<open>Object.entries(colorMap)\<close> with its \<open>break\<close>.\<close>

definition feelingColor :: "jstring \<Rightarrow> jstring" where
  "feelingColor normalized =
     (case find (\<lambda>kc. str_includes normalized (fst kc)) colorMap of
        Some kc \<Rightarrow> snd kc
      | None \<Rightarrow> str ''#F4D03F'')"

definition feelingRow ::
  "row \<Rightarrow> (jstring \<times> feeling_entry) list \<Rightarrow> (jstring \<times> feeling_entry) list" where
  "feelingRow row fs =
     (let v = getValue row Feeling
      in if v = [] then fs
         else
           (let normalized = trim (toLowerCase v);
                fs1 =
                  (if map_of fs normalized = None then
                     AList.update normalized
                       \<lparr>original = trim v,
                        emoji = (case matchEmoji v of [] \<Rightarrow> [0xF0, 0x178, 0x2022] | e # _ \<Rightarrow> e),
                        color = feelingColor normalized,
                        count = 0\<rparr> fs
                   else fs)
            in AList.map_entry normalized
                 (\<lambda>f. f\<lparr>feeling_entry.count := feeling_entry.count f + 1\<rparr>) fs1))"

definition processFeelings :: "row list \<Rightarrow> feeling_item aggregate" where
  "processFeelings data =
     (let fs = fold feelingRow data [];
          n = foldl (\<lambda>sum f. sum + feeling_entry.count f) 0 (objectValues fs)
      in \<lparr>items =
            sortByCountDesc feeling_item.count
              (map (\<lambda>f. \<lparr>feeling = trim (removeEmoji (original f)),
                          count = feeling_entry.count f,
                          percentage = percentOf (feeling_entry.count f) n,
                          emoji = feeling_entry.emoji f,
                          color = feeling_entry.color f\<rparr>)
                 (objectValues fs)),
          total = n\<rparr>)"

section \<open>Order again\<close>

definition orderAgainRow :: "row \<Rightarrow> nat \<times> nat \<Rightarrow> nat \<times> nat" where
  "orderAgainRow row ym =
     (let v = getValue row OrderAgain
      in if v = [] then ym
         else
           (let lowered = toLowerCase v
            in if str_includes lowered (str ''yes'') \<or> str_includes lowered (str ''absolutely'')
                  \<or> str_includes lowered (str ''definitely'')
               then (fst ym + 1, snd ym)
               else if str_includes lowered (str ''meh'') \<or> str_includes lowered (str ''maybe'')
                       \<or> str_includes lowered (str ''no'')
               then (fst ym, snd ym + 1)
               else ym))"

definition processOrderAgain :: "row list \<Rightarrow> order_result" where
  "processOrderAgain data =
     (let ym = fold orderAgainRow data (0, 0);
          n = fst ym + snd ym
      in \<lparr>yes = \<lparr>share.count = fst ym,
                  percentage = (if n > 0 then percentOf (fst ym) n else 0)\<rparr>,
          meh = \<lparr>share.count = snd ym,
                  percentage = (if n > 0 then percentOf (snd ym) n else 0)\<rparr>,
          total = n\<rparr>)"

section \<open>Tiers\<close>

definition tiersInit :: "(jstring \<times> tier_entry) list" where
  "tiersInit =
     [(str ''Top Tier'',
         \<lparr>tier_entry.count = 0, icon = [0xF0, 0x178, 0x2020], color = str ''#FFD700''\<rparr>),
      (str ''Solid Choice'',
         \<lparr>tier_entry.count = 0, icon = [0xF0, 0x178, 0xA5, 0x2C6], color = str ''#C0C0C0''\<rparr>),
      (str ''Mid'',
         \<lparr>tier_entry.count = 0, icon = [0xF0, 0x178, 0xA5, 0x2030], color = str ''#CD7F32''\<rparr>)]"

definition tierRow :: "row \<Rightarrow> (jstring \<times> tier_entry) list \<Rightarrow> (jstring \<times> tier_entry) list" where
  "tierRow row ts =
     (let v = getValue row Tier
      in if v = [] then ts
         else
           (let lowered = toLowerCase v;
                incr = (\<lambda>t. t\<lparr>tier_entry.count := tier_entry.count t + 1\<rparr>)
            in if str_includes lowered (str ''top'') \<or> str_includes lowered (str ''best'')
                  \<or> str_includes lowered (str ''excellent'')
               then AList.map_entry (str ''Top Tier'') incr ts
               else if str_includes lowered (str ''solid'') \<or> str_includes lowered (str ''good'')
                       \<or> str_includes lowered (str ''great'')
               then AList.map_entry (str ''Solid Choice'') incr ts
               else if str_includes lowered (str ''mid'') \<or> str_includes lowered (str ''average'')
                       \<or> str_includes lowered (str ''okay'')
               then AList.map_entry (str ''Mid'') incr ts
               else ts))"

definition processTiers :: "row list \<Rightarrow> tier_item aggregate" where
  "processTiers data =
     (let ts = fold tierRow data tiersInit;
          n = foldl (\<lambda>sum t. sum + tier_entry.count t) 0 (objectValues ts)
      in \<lparr>items =
            map (\<lambda>(k, d). \<lparr>tier_item.name = k,
                             count = tier_entry.count d,
                             percentage = (if n > 0 then percentOf (tier_entry.count d) n else 0),
                             icon = tier_entry.icon d,
                             color = tier_entry.color d\<rparr>)
              (objectEntries ts),
          total = n\<rparr>)"

section \<open>Word cloud\<close>

text \<open>The separators of \<open>/[,;/\s]+/\<close>.\<close>

definition isWordSeparator :: "nat \<Rightarrow> bool" where
  "isWordSeparator c \<longleftrightarrow> c = 44 \<or> c = 59 \<or> c = 47 \<or> isWhiteSpace c"

definition stopWords :: "jstring list" where
  "stopWords =
     [str ''the'', str ''a'', str ''an'', str ''and'', str ''or'', str ''but'', str ''is'',
      str ''are'', str ''was'', str ''were'', str ''it'', str ''its'']"

definition isStopWord :: "jstring \<Rightarrow> bool" where
  "isStopWord word \<longleftrightarrow> toLowerCase word \<in> set stopWords"

definition wordList :: "jstring \<Rightarrow> jstring list" where
  "wordList v =
     filter (\<lambda>w. length w > 1 \<and> \<not> isStopWord w)
       (map (\<lambda>w. toLowerCase (trim w)) (splitRuns isWordSeparator v))"

text \<open>
  \<open>find(...) || word\<close>: the piece found is used when it is not the empty string.
\<close>

definition countWord ::
  "jstring \<Rightarrow> jstring \<Rightarrow> (jstring \<times> word_item) list \<Rightarrow> (jstring \<times> word_item) list" where
  "countWord v word ws =
     (let displayWord =
            (case find (\<lambda>w. toLowerCase (trim w) = word) (splitRuns isWordSeparator v) of
               Some w \<Rightarrow> if w \<noteq> [] then w else word
             | None \<Rightarrow> word);
          ws1 =
            (if map_of ws word = None
             then AList.update word \<lparr>text = trim displayWord, count = 0\<rparr> ws
             else ws)
      in AList.map_entry word (\<lambda>e. e\<lparr>word_item.count := word_item.count e + 1\<rparr>) ws1)"

definition wordRow :: "row \<Rightarrow> (jstring \<times> word_item) list \<Rightarrow> (jstring \<times> word_item) list" where
  "wordRow row ws =
     (let v = getValue row OneWord
      in if v = [] then ws else fold (countWord v) (wordList v) ws)"

definition processWordCloud :: "row list \<Rightarrow> word_item list" where
  "processWordCloud data =
     take 50 (sortByCountDesc word_item.count (objectValues (fold wordRow data [])))"

section \<open>Cold pizza\<close>

definition preferencesInit :: "(jstring \<times> preference_entry) list" where
  "preferencesInit =
     [(str ''Leftovers Please!'', \<lparr>preference_entry.count = 0, color = str ''#27AE60''\<rparr>),
      (str ''If Desperate'', \<lparr>preference_entry.count = 0, color = str ''#F39C12''\<rparr>),
      (str ''Never!'', \<lparr>preference_entry.count = 0, color = str ''#C0392B''\<rparr>)]"

definition coldPizzaRow ::
  "row \<Rightarrow> (jstring \<times> preference_entry) list \<Rightarrow> (jstring \<times> preference_entry) list" where
  "coldPizzaRow row ps =
     (let v = getValue row ColdPizza
      in if v = [] then ps
         else
           (let lowered = toLowerCase v;
                incr = (\<lambda>p. p\<lparr>preference_entry.count := preference_entry.count p + 1\<rparr>)
            in if str_includes lowered (str ''leftover'') \<or> str_includes lowered (str ''please'')
                  \<or> str_includes lowered (str ''love'') \<or> str_includes lowered (str ''yes'')
               then AList.map_entry (str ''Leftovers Please!'') incr ps
               else if str_includes lowered (str ''desperate'')
                       \<or> str_includes lowered (str ''maybe'')
                       \<or> str_includes lowered (str ''sometimes'')
               then AList.map_entry (str ''If Desperate'') incr ps
               else if str_includes lowered (str ''never'') \<or> str_includes lowered (str ''no'')
                       \<or> str_includes lowered (str ''chance'')
               then AList.map_entry (str ''Never!'') incr ps
               else ps))"

definition processColdPizza :: "row list \<Rightarrow> cold_item aggregate" where
  "processColdPizza data =
     (let ps = fold coldPizzaRow data preferencesInit;
          n = foldl (\<lambda>sum p. sum + preference_entry.count p) 0 (objectValues ps)
      in \<lparr>items =
            map (\<lambda>(k, d). \<lparr>label = k,
                             count = preference_entry.count d,
                             percentage =
                               (if n > 0 then percentOf (preference_entry.count d) n else 0),
                             color = preference_entry.color d\<rparr>)
              (objectEntries ps),
          total = n\<rparr>)"

section \<open>Comments\<close>

text \<open>\<open>[...new Set(comments)]\<close>: the first occurrence of every string, in order.\<close>

definition uniqueSet :: "'a list \<Rightarrow> 'a list" where
  "uniqueSet xs = foldl (\<lambda>acc c. if c \<in> set acc then acc else acc @ [c]) [] xs"

text \<open>
  The loop of \<open>shuffleArray\<close> from index \<open>i\<close> down to 1. \<open>u i\<close> is the number that
  \<open>Math.random()\<close> returns in the round of index \<open>i\<close>, a double in the interval from 0
  (included) to 1 (excluded), so that \<open>j \<le> i\<close>.
\<close>

fun shuffleFrom :: "(nat \<Rightarrow> rat) \<Rightarrow> nat \<Rightarrow> 'a list \<Rightarrow> 'a list" where
  "shuffleFrom u 0 arr = arr"
| "shuffleFrom u (Suc i) arr =
     (let j = nat \<lfloor>roundDouble (u (Suc i) * of_nat (Suc i + 1))\<rfloor>
      in shuffleFrom u i (arr[Suc i := arr ! j, j := arr ! Suc i]))"

definition shuffleArray :: "(nat \<Rightarrow> rat) \<Rightarrow> 'a list \<Rightarrow> 'a list" where
  "shuffleArray u array = shuffleFrom u (length array - 1) array"

definition processComments :: "(nat \<Rightarrow> rat) \<Rightarrow> row list \<Rightarrow> jstring list" where
  "processComments u data =
     (let cs = map trim
                 (filter (\<lambda>c. c \<noteq> [] \<and> length (trim c) > 10)
                    (map (\<lambda>row. getValue row Comments) data))
      in take 10 (shuffleArray u (uniqueSet cs)))"

section \<open>The pipeline\<close>

datatype error = NoData

text \<open>
  \<open>rawData\<close> is \<open>None\<close> for \<open>null\<close> or \<open>undefined\<close>. \<open>Inl NoData\<close> is the exception
  \<open>Error('No data to process')\<close>. The numbers that \<open>Math.random\<close> returns during the
  run are the argument \<open>u\<close>; only \<open>processComments\<close> draws from them.
\<close>

definition processData :: "host \<Rightarrow> (nat \<Rightarrow> rat) \<Rightarrow> row list option \<Rightarrow> error + result" where
  "processData h u rawData =
     (case rawData of
        None \<Rightarrow> Inl NoData
      | Some data \<Rightarrow>
          if length data = 0 then Inl NoData
          else Inr \<lparr>summary = processSummary h data,
                    rating = processRating data,
                    pizzaPopularity = processPizzaPopularity data,
                    feelings = processFeelings data,
                    orderAgain = processOrderAgain data,
                    tiers = processTiers data,
                    wordCloud = processWordCloud data,
                    coldPizza = processColdPizza data,
                    comments = processComments u data\<rparr>)"

section \<open>The classifier of the specification\<close>

text \<open>
  The specification describes one classifier for the three closed sets of categories:
  the text is lower-cased, the rules are tried in order, a rule matches when the text
  contains one of its keywords, and the category of the first rule that matches is
  returned. The source has no such function; the three reducers spell the rules out as
  chains of conditionals. These definitions follow the specification, to be compared
  with the reducers.
\<close>

definition classify_spec :: "jstring \<Rightarrow> (jstring \<times> jstring list) list \<Rightarrow> jstring option" where
  "classify_spec t rules =
     map_option fst
       (find (\<lambda>rule. list_ex (\<lambda>kw. str_includes (toLowerCase t) kw) (snd rule)) rules)"

definition orderAgainRules_spec :: "(jstring \<times> jstring list) list" where
  "orderAgainRules_spec =
     [(str ''yes'', [str ''yes'', str ''absolutely'', str ''definitely'']),
      (str ''meh'', [str ''meh'', str ''maybe'', str ''no''])]"

definition tierRules_spec :: "(jstring \<times> jstring list) list" where
  "tierRules_spec =
     [(str ''Top Tier'', [str ''top'', str ''best'', str ''excellent'']),
      (str ''Solid Choice'', [str ''solid'', str ''good'', str ''great'']),
      (str ''Mid'', [str ''mid'', str ''average'', str ''okay''])]"

definition coldPizzaRules_spec :: "(jstring \<times> jstring list) list" where
  "coldPizzaRules_spec =
     [(str ''Leftovers Please!'', [str ''leftover'', str ''please'', str ''love'', str ''yes'']),
      (str ''If Desperate'', [str ''desperate'', str ''maybe'', str ''sometimes'']),
      (str ''Never!'', [str ''never'', str ''no'', str ''chance''])]"

section \<open>Notions used in the statements\<close>


text \<open>Two rows in which every logical field resolves to the same value.\<close>

definition sameValues :: "row \<Rightarrow> row \<Rightarrow> bool" where
  "sameValues a b \<longleftrightarrow> (\<forall>f. getValue a f = getValue b f)"

section \<open>Properties of column resolution\<close>

lemma str_includes_iff: "str_includes s t \<longleftrightarrow> (\<exists>p q. s = p @ t @ q)"
proof (induction s)
  case Nil
  then show ?case by auto
next
  case (Cons c s)
  show ?case
  proof
    assume "str_includes (c # s) t"
    then consider "prefix t (c # s)" | "str_includes s t" by auto
    then show "\<exists>p q. c # s = p @ t @ q"
    proof cases
      case 1
      then obtain q where "c # s = t @ q" by (auto simp: prefix_def)
      then have "c # s = [] @ t @ q" by simp
      then show ?thesis by blast
    next
      case 2
      with Cons.IH obtain p q where "s = p @ t @ q" by blast
      then have "c # s = (c # p) @ t @ q" by simp
      then show ?thesis by blast
    qed
  next
    assume "\<exists>p q. c # s = p @ t @ q"
    then obtain p q where pq: "c # s = p @ t @ q" by blast
    show "str_includes (c # s) t"
    proof (cases p)
      case Nil
      with pq have "prefix t (c # s)" by (simp add: prefix_def)
      then show ?thesis by simp
    next
      case (Cons a p')
      with pq have "s = p' @ t @ q" by simp
      with Cons.IH have "str_includes s t" by blast
      then show ?thesis by simp
    qed
  qed
qed

lemma str_includes_self: "str_includes s s"
proof -
  have "s = [] @ s @ []" by simp
  then show ?thesis unfolding str_includes_iff by blast
qed

lemma columnMatches_self: "columnMatches k k"
  by (simp add: columnMatches_def str_includes_self)

lemma findColumnIn_None:
  "(\<And>m k. m \<in> set mappings \<Longrightarrow> k \<in> set keys \<Longrightarrow> \<not> columnMatches m k)
   \<Longrightarrow> findColumnIn keys mappings = None"
proof (induction mappings)
  case Nil
  then show ?case by simp
next
  case (Cons m ms)
  have "find (columnMatches m) keys = None"
    using Cons.prems by (auto simp: find_None_iff)
  moreover have "findColumnIn keys ms = None"
    using Cons by simp
  ultimately show ?case by simp
qed

lemma find_only:
  assumes "\<And>k. k \<in> set keys \<Longrightarrow> k \<noteq> c \<Longrightarrow> \<not> P k"
  shows "find P keys = None \<or> find P keys = Some c"
proof (cases "find P keys")
  case None
  then show ?thesis by simp
next
  case (Some k)
  then have "k \<in> set keys" "P k" by (auto simp: find_Some_iff)
  with assms have "k = c" by blast
  with Some show ?thesis by simp
qed

lemma findColumnIn_first_exact:
  assumes c: "c \<in> set keys" "c \<noteq> []"
    and others: "\<And>m k. m \<in> set (pre @ [c]) \<Longrightarrow> k \<in> set keys \<Longrightarrow> k \<noteq> c \<Longrightarrow> \<not> columnMatches m k"
  shows "findColumnIn keys (pre @ c # post) = Some c"
  using others
proof (induction pre)
  case Nil
  have "find (columnMatches c) keys = None \<or> find (columnMatches c) keys = Some c"
    by (rule find_only) (use Nil in auto)
  moreover have "find (columnMatches c) keys \<noteq> None"
    using c(1) by (auto simp: find_None_iff columnMatches_self)
  ultimately show ?case using c(2) by simp
next
  case (Cons m pre)
  have alt: "find (columnMatches m) keys = None \<or> find (columnMatches m) keys = Some c"
    by (rule find_only) (use Cons.prems in auto)
  have rest: "findColumnIn keys (pre @ c # post) = Some c"
    by (rule Cons.IH) (use Cons.prems in auto)
  from alt show ?case
  proof
    assume "find (columnMatches m) keys = None"
    with rest show ?thesis by simp
  next
    assume "find (columnMatches m) keys = Some c"
    with c(2) show ?thesis by simp
  qed
qed

lemma mappings_nonempty: "m \<in> set (COLUMN_MAPPINGS f) \<Longrightarrow> m \<noteq> []"
  by (cases f) (auto simp: str_def)


text \<open>
  C3, first half as stated: when no lower-cased alias of the field occurs in a lower-cased
  column name of the row and no lower-cased column name occurs in a lower-cased alias,
  the resolution finds no column. Second half as amended: when a column name of the row
  is an alias of the field, and no other column name of the row matches that alias or an
  alias before it in the list of the field (in either direction of the substring test),
  the resolution returns that column.
\<close>

theorem findColumn_resolution:
  "((\<forall>m \<in> set (COLUMN_MAPPINGS field). \<forall>k \<in> fst ` set row.
        \<not> str_includes (toLowerCase k) (toLowerCase m)
        \<and> \<not> str_includes (toLowerCase m) (toLowerCase k))
      \<longrightarrow> findColumn row field = None)
   \<and> (i < length (COLUMN_MAPPINGS field) \<and> COLUMN_MAPPINGS field ! i \<in> fst ` set row
       \<and> (\<forall>k \<in> fst ` set row. k \<noteq> COLUMN_MAPPINGS field ! i \<longrightarrow>
             (\<forall>m \<in> set (take (Suc i) (COLUMN_MAPPINGS field)). \<not> columnMatches m k))
      \<longrightarrow> findColumn row field = Some (COLUMN_MAPPINGS field ! i))"
proof (intro conjI impI)
  assume "\<forall>m \<in> set (COLUMN_MAPPINGS field). \<forall>k \<in> fst ` set row.
            \<not> str_includes (toLowerCase k) (toLowerCase m)
            \<and> \<not> str_includes (toLowerCase m) (toLowerCase k)"
  then have "\<And>m k. m \<in> set (COLUMN_MAPPINGS field) \<Longrightarrow> k \<in> set (map fst row)
               \<Longrightarrow> \<not> columnMatches m k"
    by (auto simp: columnMatches_def)
  then show "findColumn row field = None"
    unfolding findColumn_def by (rule findColumnIn_None)
next
  let ?ms = "COLUMN_MAPPINGS field"
  let ?c = "?ms ! i"
  assume a: "i < length ?ms \<and> ?c \<in> fst ` set row
       \<and> (\<forall>k \<in> fst ` set row. k \<noteq> ?c \<longrightarrow> (\<forall>m \<in> set (take (Suc i) ?ms). \<not> columnMatches m k))"
  then have i: "i < length ?ms" by simp
  then have "?c \<in> set ?ms" by simp
  then have ne: "?c \<noteq> []" by (rule mappings_nonempty)
  have split: "?ms = take i ?ms @ ?c # drop (Suc i) ?ms"
    using i by (rule id_take_nth_drop)
  have tk: "take (Suc i) ?ms = take i ?ms @ [?c]"
    using i by (rule take_Suc_conv_app_nth)
  have "findColumnIn (map fst row) (take i ?ms @ ?c # drop (Suc i) ?ms) = Some ?c"
  proof (rule findColumnIn_first_exact [OF _ ne])
    show "?c \<in> set (map fst row)" using a by simp
  next
    fix m k
    assume "m \<in> set (take i ?ms @ [?c])" "k \<in> set (map fst row)" "k \<noteq> ?c"
    with a tk show "\<not> columnMatches m k" by auto
  qed
  with split show "findColumn row field = Some ?c"
    unfolding findColumn_def by simp
qed

theorem findColumn_resolution_witness:
  "findColumn [(str ''Name'', str ''Ada'')] Rating = None
   \<and> COLUMN_MAPPINGS Rating ! 2 = str ''Rating''
   \<and> findColumn [(str ''Rating'', str ''8''), (str ''Scoreboard'', str ''3:1'')] Rating
       = Some (str ''Rating'')"
proof -
  have h1: "\<forall>m \<in> set (COLUMN_MAPPINGS Rating). \<forall>k \<in> fst ` set [(str ''Name'', str ''Ada'')].
       \<not> str_includes (toLowerCase k) (toLowerCase m)
       \<and> \<not> str_includes (toLowerCase m) (toLowerCase k)"
    by (simp add: toLowerCase_def str_def)
  have n: "COLUMN_MAPPINGS Rating ! 2 = str ''Rating''" by simp
  have h2: "2 < length (COLUMN_MAPPINGS Rating)
      \<and> COLUMN_MAPPINGS Rating ! 2 \<in> fst ` set [(str ''Rating'', str ''8''), (str ''Scoreboard'', str ''3:1'')]
      \<and> (\<forall>k \<in> fst ` set [(str ''Rating'', str ''8''), (str ''Scoreboard'', str ''3:1'')].
         k \<noteq> COLUMN_MAPPINGS Rating ! 2 \<longrightarrow>
           (\<forall>m \<in> set (take (Suc 2) (COLUMN_MAPPINGS Rating)). \<not> columnMatches m k))"
    by (simp add: columnMatches_def toLowerCase_def str_def)
  from h1 h2 n
    findColumn_resolution [where field = Rating and row = "[(str ''Name'', str ''Ada'')]"]
    findColumn_resolution [where field = Rating and i = 2
        and row = "[(str ''Rating'', str ''8''), (str ''Scoreboard'', str ''3:1'')]"]
  show ?thesis by metis
qed


text \<open>
  C3, second half as stated, fails: in a row with the columns Pizza and Rating, the
  column Rating is an alias of the field rating, but the first alias of the field,
  \<open>Rate the overall taste of the pizza:\<close>, contains the lower-cased name of the column
  Pizza, and the resolution returns Pizza.
\<close>

theorem findColumn_exact_alias_counterexample:
  "str ''Rating'' \<in> fst ` set [(str ''Pizza'', str ''Cheese''), (str ''Rating'', str ''8'')]
   \<and> str ''Rating'' \<in> set (COLUMN_MAPPINGS Rating)
   \<and> findColumn [(str ''Pizza'', str ''Cheese''), (str ''Rating'', str ''8'')] Rating
       = Some (str ''Pizza'')
   \<and> str ''Pizza'' \<noteq> str ''Rating''"
  by (simp add: findColumn_def columnMatches_def toLowerCase_def str_def)


section \<open>The rounding to doubles\<close>

text \<open>
  The rounding is monotone (\<open>roundDouble_mono\<close>) and leaves every integer up to \<open>2^53\<close>
  in absolute value as it is (\<open>roundDouble_of_int\<close>). As a check of the definition, the
  double nearest to one tenth is the known one.
\<close>

lemma roundDouble_tenth: "roundDouble (1 / 10) = 3602879701896397 / 36028797018963968"
  by code_simp

lemma bitlen_powi_bounds:
  assumes "0 < p"
  shows "2 powi (bitlen p - 1) \<le> (of_int p :: rat) \<and> (of_int p :: rat) < 2 powi (bitlen p)"
proof -
  from bitlen_bounds [OF assms] have b: "2 ^ nat (bitlen p - 1) \<le> p" "p < 2 ^ nat (bitlen p)"
    by simp_all
  have ge1: "1 \<le> bitlen p" using assms by (auto simp: bitlen_alt_def)
  have "(2 :: rat) powi (bitlen p - 1) = 2 ^ nat (bitlen p - 1)"
    using ge1 by (simp add: power_int_def)
  moreover have "(2 :: rat) powi (bitlen p) = 2 ^ nat (bitlen p)"
    using ge1 by (simp add: power_int_def)
  moreover have "(2 :: rat) ^ nat (bitlen p - 1) \<le> of_int p"
    using b(1) by (metis of_int_le_iff of_int_numeral of_int_power)
  moreover have "(of_int p :: rat) < 2 ^ nat (bitlen p)"
    using b(2) by (metis of_int_less_iff of_int_numeral of_int_power)
  ultimately show ?thesis by simp
qed

lemma bexp_bounds:
  assumes "0 < x"
  shows "2 powi (bexp x) \<le> x \<and> x < 2 powi (bexp x + 1)"
proof -
  obtain p q where pq: "quotient_of x = (p, q)" by (cases "quotient_of x")
  then have q: "0 < q" and x: "x = of_int p / of_int q"
    by (simp_all add: quotient_of_denom_pos quotient_of_div)
  have p: "0 < p" using assms q x by (simp add: zero_less_divide_iff)
  let ?e = "bitlen p - bitlen q"
  note bp = bitlen_powi_bounds [OF p] and bq = bitlen_powi_bounds [OF q]
  have qpos: "(0 :: rat) < of_int q" using q by simp
  have hi: "x < 2 powi (?e + 1)"
  proof -
    have "of_int p * (2 :: rat) powi (bitlen q - 1) < 2 powi (bitlen p) * of_int q"
      using bp bq p q by (intro mult_less_le_imp_less) simp_all
    then have "x < 2 powi (bitlen p) / 2 powi (bitlen q - 1)"
      unfolding x using qpos by (simp add: field_simps)
    also have "\<dots> = 2 powi (?e + 1)"
      by (simp add: power_int_diff [symmetric] algebra_simps)
    finally show ?thesis .
  qed
  have lo: "2 powi (?e - 1) \<le> x"
  proof -
    have "(2 :: rat) powi (bitlen p - 1) * of_int q \<le> of_int p * 2 powi (bitlen q)"
      using bp bq p q by (intro mult_mono) simp_all
    then have "2 powi (bitlen p - 1) / 2 powi (bitlen q) \<le> x"
      unfolding x using qpos by (simp add: field_simps)
    moreover have "(2 :: rat) powi (bitlen p - 1) / 2 powi (bitlen q) = 2 powi (?e - 1)"
      by (simp add: power_int_diff [symmetric] algebra_simps)
    ultimately show ?thesis by simp
  qed
  show ?thesis
  proof (cases "2 powi ?e \<le> x")
    case True
    then have "bexp x = ?e" by (simp add: bexp_def pq)
    with True hi show ?thesis by simp
  next
    case False
    then have "bexp x = ?e - 1" by (simp add: bexp_def pq)
    with False lo show ?thesis by simp
  qed
qed

lemma powi2_less_cancel:
  assumes "(2 :: rat) powi a < 2 powi b"
  shows "a < b"
proof (rule ccontr)
  assume "\<not> a < b"
  then have "b \<le> a" by simp
  then have "(2 :: rat) powi b \<le> 2 powi a" by (rule power_int_increasing) simp
  with assms show False by simp
qed

lemma bexp_mono:
  assumes "0 < x" "x \<le> y"
  shows "bexp x \<le> bexp y"
proof -
  have y: "0 < y" using assms by simp
  from bexp_bounds [OF assms(1)] bexp_bounds [OF y]
  have "(2 :: rat) powi (bexp x) < 2 powi (bexp y + 1)" using assms(2) by simp
  then have "bexp x < bexp y + 1" by (rule powi2_less_cancel)
  then show ?thesis by simp
qed


lemma roundHalfEven_of_int: "roundHalfEven (of_int k) = k"
  by (simp add: roundHalfEven_def)

lemma roundHalfEven_floor:
  "\<lfloor>m\<rfloor> \<le> roundHalfEven m \<and> roundHalfEven m \<le> \<lfloor>m\<rfloor> + 1"
  by (simp add: roundHalfEven_def Let_def)

lemma roundHalfEven_mono:
  assumes "m \<le> n"
  shows "roundHalfEven m \<le> roundHalfEven n"
proof (cases "\<lfloor>m\<rfloor> = \<lfloor>n\<rfloor>")
  case True
  with assms show ?thesis
    by (auto simp: roundHalfEven_def Let_def)
next
  case False
  with assms have "\<lfloor>m\<rfloor> + 1 \<le> \<lfloor>n\<rfloor>"
    using floor_mono [OF assms] by linarith
  with roundHalfEven_floor [of m] roundHalfEven_floor [of n] show ?thesis by linarith
qed

lemma roundHalfEven_ge: "of_int a \<le> m \<Longrightarrow> a \<le> roundHalfEven m"
  using roundHalfEven_mono [of "of_int a" m] by (simp add: roundHalfEven_of_int)

lemma roundHalfEven_le: "m \<le> of_int b \<Longrightarrow> roundHalfEven m \<le> b"
  using roundHalfEven_mono [of m "of_int b"] by (simp add: roundHalfEven_of_int)

lemma quantum_pos: "0 < quantum x"
  by (simp add: quantum_def)

lemma roundDouble_pos:
  "0 < x \<Longrightarrow> roundDouble x = of_int (roundHalfEven (x / quantum x)) * quantum x"
  by (simp add: roundDouble_def)

lemma powi_ratio: "(2 :: rat) powi a / 2 powi (a - 52) = 2 ^ 52"
proof -
  have "(2 :: rat) powi a / 2 powi (a - 52) = 2 powi (a - (a - 52))"
    by (rule power_int_diff [symmetric]) simp
  then show ?thesis by simp
qed

lemma powi_ratio1: "(2 :: rat) powi (a + 1) / 2 powi (a - 52) = 2 ^ 53"
proof -
  have "(2 :: rat) powi (a + 1) / 2 powi (a - 52) = 2 powi (a + 1 - (a - 52))"
    by (rule power_int_diff [symmetric]) simp
  then show ?thesis by simp
qed

lemma roundDouble_binade:
  assumes "0 < x"
  defines "e \<equiv> max (bexp x) (- 1022)"
  shows "roundDouble x \<le> 2 powi (e + 1)" and "bexp x = e \<Longrightarrow> 2 powi e \<le> roundDouble x"
proof -
  have q: "quantum x = 2 powi (e - 52)" using assms by (simp add: quantum_def e_def)
  have qpos: "0 < quantum x" by (rule quantum_pos)
  from bexp_bounds [OF assms(1)] have b: "2 powi (bexp x) \<le> x" "x < 2 powi (bexp x + 1)"
    by simp_all
  have "(2 :: rat) powi (bexp x + 1) \<le> 2 powi (e + 1)"
    by (rule power_int_increasing) (simp_all add: e_def)
  with b(2) have "x \<le> 2 powi (e + 1)" by simp
  then have "x / quantum x \<le> 2 powi (e + 1) / quantum x"
    using qpos by (simp add: divide_right_mono)
  then have "x / quantum x \<le> of_int (2 ^ 53)"
    by (simp add: q powi_ratio1)
  then have "roundHalfEven (x / quantum x) \<le> 2 ^ 53" by (rule roundHalfEven_le)
  then have "(of_int (roundHalfEven (x / quantum x)) :: rat) \<le> of_int (2 ^ 53)"
    by (simp only: of_int_le_iff)
  then have "of_int (roundHalfEven (x / quantum x)) * quantum x \<le> 2 ^ 53 * quantum x"
    using qpos by (simp add: mult_right_mono)
  also have "2 ^ 53 * quantum x = 2 powi (e + 1)"
    using powi_ratio1 [of e] by (simp add: q field_simps)
  finally show "roundDouble x \<le> 2 powi (e + 1)"
    by (simp add: roundDouble_pos [OF assms(1)])
  show "2 powi e \<le> roundDouble x" if "bexp x = e"
  proof -
    from b(1) that have "2 powi e \<le> x" by simp
    then have "2 powi e / quantum x \<le> x / quantum x"
      using qpos by (simp add: divide_right_mono)
    then have "of_int (2 ^ 52) \<le> x / quantum x"
      by (simp add: q powi_ratio)
    then have "2 ^ 52 \<le> roundHalfEven (x / quantum x)" by (rule roundHalfEven_ge)
    then have "(of_int (2 ^ 52) :: rat) \<le> of_int (roundHalfEven (x / quantum x))"
      by (simp only: of_int_le_iff)
    then have "2 ^ 52 * quantum x \<le> of_int (roundHalfEven (x / quantum x)) * quantum x"
      using qpos by (simp add: mult_right_mono)
    moreover have "2 ^ 52 * quantum x = 2 powi e"
      using powi_ratio [of e] by (simp add: q field_simps)
    ultimately show ?thesis by (simp add: roundDouble_pos [OF assms(1)])
  qed
qed

lemma roundDouble_mono_pos:
  assumes "0 < x" "x \<le> y"
  shows "roundDouble x \<le> roundDouble y"
proof -
  have y: "0 < y" using assms by simp
  let ?ex = "max (bexp x) (- 1022)" and ?ey = "max (bexp y) (- 1022)"
  have le: "?ex \<le> ?ey" using bexp_mono [OF assms] by simp
  show ?thesis
  proof (cases "?ex = ?ey")
    case True
    then have q: "quantum x = quantum y" using assms y by (simp add: quantum_def)
    have "x / quantum y \<le> y / quantum y"
      using assms(2) quantum_pos [of y] by (simp add: divide_right_mono)
    then have "roundHalfEven (x / quantum y) \<le> roundHalfEven (y / quantum y)"
      by (rule roundHalfEven_mono)
    then have "(of_int (roundHalfEven (x / quantum y)) :: rat)
        \<le> of_int (roundHalfEven (y / quantum y))"
      by (simp only: of_int_le_iff)
    then show ?thesis
      using quantum_pos [of y]
      by (simp add: roundDouble_pos [OF assms(1)] roundDouble_pos [OF y] q mult_right_mono)
  next
    case False
    with le have lt: "?ex < ?ey" by linarith
    then have ey: "bexp y = ?ey" by linarith
    have step: "?ex + 1 \<le> ?ey" using lt by linarith
    have "roundDouble x \<le> 2 powi (?ex + 1)" by (rule roundDouble_binade(1) [OF assms(1)])
    also have "(2 :: rat) powi (?ex + 1) \<le> 2 powi ?ey"
      using step by (rule power_int_increasing) simp
    also have "2 powi ?ey \<le> roundDouble y" by (rule roundDouble_binade(2) [OF y ey])
    finally show ?thesis .
  qed
qed

lemma roundDouble_nonneg: "0 \<le> x \<Longrightarrow> 0 \<le> roundDouble x"
proof (cases "x = 0")
  case True
  then show ?thesis by (simp add: roundDouble_def)
next
  case False
  assume "0 \<le> x"
  with False have x: "0 < x" by simp
  have "of_int 0 \<le> x / quantum x" using x quantum_pos [of x] by simp
  then have "0 \<le> roundHalfEven (x / quantum x)" by (rule roundHalfEven_ge)
  then show ?thesis
    using quantum_pos [of x] by (simp add: roundDouble_pos [OF x])
qed

lemma roundDouble_minus: "roundDouble (- x) = - roundDouble x"
  by (simp add: roundDouble_def quantum_def)

lemma roundDouble_mono:
  assumes "x \<le> y"
  shows "roundDouble x \<le> roundDouble y"
proof -
  consider "0 < x" | "x \<le> 0" "0 \<le> y" | "y < 0" by linarith
  then show ?thesis
  proof cases
    case 1
    then show ?thesis using assms by (rule roundDouble_mono_pos)
  next
    case 2
    have "0 \<le> roundDouble (- x)" using 2(1) by (intro roundDouble_nonneg) simp
    then have "roundDouble x \<le> 0" by (simp add: roundDouble_minus)
    also have "0 \<le> roundDouble y" using 2(2) by (rule roundDouble_nonneg)
    finally show ?thesis .
  next
    case 3
    then have "0 < - y" "- y \<le> - x" using assms by simp_all
    then have "roundDouble (- y) \<le> roundDouble (- x)" by (rule roundDouble_mono_pos)
    then show ?thesis by (simp add: roundDouble_minus)
  qed
qed

lemma roundDouble_of_int_pos:
  assumes "0 < k" "k \<le> 2 ^ 53"
  shows "roundDouble (of_int k) = of_int k"
proof -
  let ?x = "of_int k :: rat"
  have x: "0 < ?x" using assms(1) by simp
  from bexp_bounds [OF x] have b: "2 powi (bexp ?x) \<le> ?x" "?x < 2 powi (bexp ?x + 1)"
    by simp_all
  have "(2 :: rat) powi 0 \<le> ?x" using assms(1) by simp
  with b(2) have "(2 :: rat) powi 0 < 2 powi (bexp ?x + 1)" by simp
  then have "0 < bexp ?x + 1" by (rule powi2_less_cancel)
  then have e0: "0 \<le> bexp ?x" by simp
  have "?x \<le> of_int (2 ^ 53)" using assms(2) by (simp only: of_int_le_iff)
  then have "?x < 2 powi 54" by simp
  with b(1) have "(2 :: rat) powi (bexp ?x) < 2 powi 54" by simp
  then have e1: "bexp ?x < 54" by (rule powi2_less_cancel)
  have q: "quantum ?x = 2 powi (bexp ?x - 52)"
    using e0 x by (simp add: quantum_def)
  have "\<exists>j. ?x / quantum ?x = of_int j"
  proof (cases "bexp ?x \<le> 52")
    case True
    have "?x / quantum ?x = ?x * 2 powi (52 - bexp ?x)"
      by (simp add: q power_int_diff field_simps)
    also have "\<dots> = ?x * 2 ^ nat (52 - bexp ?x)"
      using True by (simp add: power_int_def)
    also have "\<dots> = of_int (k * 2 ^ nat (52 - bexp ?x))" by simp
    finally show ?thesis by blast
  next
    case False
    with e1 have e: "bexp ?x = 53" by simp
    with b(1) have "(2 :: rat) ^ 53 \<le> ?x" by simp
    then have "of_int (2 ^ 53) \<le> ?x" by simp
    then have "2 ^ 53 \<le> k" by (simp only: of_int_le_iff)
    with assms(2) have k: "k = 2 ^ 53" by simp
    have "quantum ?x = 2" by (simp add: q e)
    moreover have "?x = 2 ^ 53" by (simp add: k)
    ultimately have "?x / quantum ?x = of_int (2 ^ 52)" by simp
    then show ?thesis by blast
  qed
  then obtain j where j: "?x / quantum ?x = of_int j" by blast
  then have "?x = of_int j * quantum ?x"
    using quantum_pos [of ?x] by (simp add: field_simps)
  then show ?thesis
    by (simp add: roundDouble_pos [OF x] j roundHalfEven_of_int)
qed

lemma roundDouble_of_int:
  assumes "\<bar>k\<bar> \<le> 2 ^ 53"
  shows "roundDouble (of_int k) = of_int k"
proof -
  consider "0 < k" | "k = 0" | "k < 0" by linarith
  then show ?thesis
  proof cases
    case 1
    then show ?thesis using assms by (intro roundDouble_of_int_pos) simp_all
  next
    case 2
    then show ?thesis by (simp add: roundDouble_def)
  next
    case 3
    then have "roundDouble (of_int (- k)) = of_int (- k)"
      using assms by (intro roundDouble_of_int_pos) simp_all
    then show ?thesis by (simp add: roundDouble_minus)
  qed
qed


lemma roundDouble_numeral:
  "(numeral n :: int) \<le> 2 ^ 53 \<Longrightarrow> roundDouble (numeral n) = numeral n"
  using roundDouble_of_int [of "numeral n"] by simp

lemma roundDouble_zero: "roundDouble 0 = 0"
  by (simp add: roundDouble_def)

lemma roundDouble_one: "roundDouble 1 = 1"
  using roundDouble_of_int [of 1] by simp

lemma roundDouble_nat:
  assumes "n \<le> 2 ^ 53"
  shows "roundDouble (of_nat n) = of_nat n"
proof -
  have "int n \<le> 2 ^ 53"
    using assms by (simp add: of_nat_le_iff [of n "2 ^ 53", where ?'a = int, simplified])
  then have "roundDouble (of_int (int n)) = of_int (int n)"
    by (intro roundDouble_of_int) simp
  then show ?thesis by simp
qed

section \<open>Evaluation of numbers\<close>

lemma mathRound_of_int: "mathRound (of_int k) = k"
  unfolding mathRound_def by linarith

lemma mathRound_numeral: "mathRound (numeral n) = numeral n"
  using mathRound_of_int [of "numeral n"] by simp


lemmas parseFloat_eval =
  parseFloat_def str_def trimStart_def isWhiteSpace_def isDigit_def digitsValue_def
  exponentPart_def scale10_def

lemma parseFloat_8: "parseFloat (str ''8'') = Finite 8"
  by (simp add: parseFloat_eval roundDouble_numeral)

lemma parseFloat_10: "parseFloat (str ''10'') = Finite 10"
  by (simp add: parseFloat_eval roundDouble_numeral)

lemma parseFloat_bad: "parseFloat (str ''bad'') = NaN"
  by (simp add: parseFloat_eval)

lemma getValue_rating_only: "getValue [(str ''rating'', v)] Rating = v"
  by (simp add: getValue_def findColumn_def columnMatches_def toLowerCase_def str_def)

lemma buckets_init:
  "map (\<lambda>i. (i, 0::nat)) [1..10] =
     [(1, 0), (2, 0), (3, 0), (4, 0), (5, 0), (6, 0), (7, 0), (8, 0), (9, 0), (10, 0)]"
  by (simp add: upto_rec1)

section \<open>Each reducer reads its own field\<close>

lemma fold_cong_all2:
  "list_all2 (\<lambda>a b. f a = f b) xs ys \<Longrightarrow> fold f xs s = fold f ys s"
  by (induction xs ys arbitrary: s rule: list_all2_induct) auto

lemma map_filter_cong_all2:
  "list_all2 (\<lambda>a b. g a = g b) xs ys \<Longrightarrow> List.map_filter g xs = List.map_filter g ys"
  by (induction xs ys rule: list_all2_induct) (auto split: option.splits)


lemma all2_of_map_eq:
  "map g xs = map g ys \<Longrightarrow> list_all2 (\<lambda>a b. g a = g b) xs ys"
proof (induction xs arbitrary: ys)
  case Nil
  then show ?case by simp
next
  case (Cons x xs)
  then obtain y ys' where "ys = y # ys'" by (cases ys) auto
  with Cons show ?case by auto
qed

lemma all2_step:
  assumes "map g xs = map g ys" "\<And>a b. g a = g b \<Longrightarrow> f a = f b"
  shows "list_all2 (\<lambda>a b. f a = f b) xs ys"
  using all2_of_map_eq [OF assms(1)] by (rule list_all2_mono) (rule assms(2))

lemma processSummary_reads_timestamp:
  assumes "map (\<lambda>row. getValue row Timestamp) d1 = map (\<lambda>row. getValue row Timestamp) d2"
  shows "processSummary h d1 = processSummary h d2"
proof -
  have "length d1 = length d2" using assms by (rule map_eq_imp_length_eq)
  with assms show ?thesis by (simp add: processSummary_def)
qed

lemma processRating_reads_rating:
  assumes "map (\<lambda>row. getValue row Rating) d1 = map (\<lambda>row. getValue row Rating) d2"
  shows "processRating d1 = processRating d2"
proof -
  have "ratingsOf d1 = ratingsOf d2"
    unfolding ratingsOf_def
    by (rule map_filter_cong_all2, rule all2_step [OF assms]) simp
  then show ?thesis by (simp add: processRating_def)
qed

lemma processPizzaPopularity_reads_pizzaType:
  assumes "map (\<lambda>row. getValue row PizzaType) d1 = map (\<lambda>row. getValue row PizzaType) d2"
  shows "processPizzaPopularity d1 = processPizzaPopularity d2"
proof -
  have "fold pizzaRow d1 [] = fold pizzaRow d2 []"
    by (rule fold_cong_all2, rule all2_step [OF assms]) (simp add: pizzaRow_def fun_eq_iff)
  then show ?thesis by (simp add: processPizzaPopularity_def)
qed

lemma processFeelings_reads_feeling:
  assumes "map (\<lambda>row. getValue row Feeling) d1 = map (\<lambda>row. getValue row Feeling) d2"
  shows "processFeelings d1 = processFeelings d2"
proof -
  have "fold feelingRow d1 [] = fold feelingRow d2 []"
    by (rule fold_cong_all2, rule all2_step [OF assms]) (simp add: feelingRow_def fun_eq_iff)
  then show ?thesis by (simp add: processFeelings_def)
qed

lemma processOrderAgain_reads_orderAgain:
  assumes "map (\<lambda>row. getValue row OrderAgain) d1 = map (\<lambda>row. getValue row OrderAgain) d2"
  shows "processOrderAgain d1 = processOrderAgain d2"
proof -
  have "fold orderAgainRow d1 (0, 0) = fold orderAgainRow d2 (0, 0)"
    by (rule fold_cong_all2, rule all2_step [OF assms]) (simp add: orderAgainRow_def fun_eq_iff)
  then show ?thesis by (simp add: processOrderAgain_def)
qed

lemma processTiers_reads_tier:
  assumes "map (\<lambda>row. getValue row Tier) d1 = map (\<lambda>row. getValue row Tier) d2"
  shows "processTiers d1 = processTiers d2"
proof -
  have "fold tierRow d1 tiersInit = fold tierRow d2 tiersInit"
    by (rule fold_cong_all2, rule all2_step [OF assms]) (simp add: tierRow_def fun_eq_iff)
  then show ?thesis by (simp add: processTiers_def)
qed

lemma processWordCloud_reads_oneWord:
  assumes "map (\<lambda>row. getValue row OneWord) d1 = map (\<lambda>row. getValue row OneWord) d2"
  shows "processWordCloud d1 = processWordCloud d2"
proof -
  have "fold wordRow d1 [] = fold wordRow d2 []"
    by (rule fold_cong_all2, rule all2_step [OF assms]) (simp add: wordRow_def fun_eq_iff)
  then show ?thesis by (simp add: processWordCloud_def)
qed

lemma processColdPizza_reads_coldPizza:
  assumes "map (\<lambda>row. getValue row ColdPizza) d1 = map (\<lambda>row. getValue row ColdPizza) d2"
  shows "processColdPizza d1 = processColdPizza d2"
proof -
  have "fold coldPizzaRow d1 preferencesInit = fold coldPizzaRow d2 preferencesInit"
    by (rule fold_cong_all2, rule all2_step [OF assms]) (simp add: coldPizzaRow_def fun_eq_iff)
  then show ?thesis by (simp add: processColdPizza_def)
qed

lemma processComments_reads_comments:
  assumes "map (\<lambda>row. getValue row Comments) d1 = map (\<lambda>row. getValue row Comments) d2"
  shows "processComments u d1 = processComments u d2"
  using assms by (simp add: processComments_def)

section \<open>The pipeline as a whole\<close>




lemma processComments_two:
  "processComments u
     [[(str ''Comments'', str ''aaaaaaaaaaa'')], [(str ''Comments'', str ''bbbbbbbbbbb'')]]
   = (if nat \<lfloor>roundDouble (u 1 * 2)\<rfloor> = 0 then [str ''bbbbbbbbbbb'', str ''aaaaaaaaaaa'']
      else if nat \<lfloor>roundDouble (u 1 * 2)\<rfloor> = 1
      then [str ''aaaaaaaaaaa'', str ''bbbbbbbbbbb'']
      else processComments u
             [[(str ''Comments'', str ''aaaaaaaaaaa'')],
              [(str ''Comments'', str ''bbbbbbbbbbb'')]])"
  by (simp add: processComments_def getValue_def findColumn_def columnMatches_def
      toLowerCase_def str_def trim_def isWhiteSpace_def uniqueSet_def shuffleArray_def)

text \<open>
  C9: two runs on the same rows, whatever \<open>Math.random\<close> returns in each, agree on the
  error and on every field of the result but \<open>comments\<close>; and there are rows on which
  two runs differ in \<open>comments\<close>.
\<close>

theorem processData_deterministic_but_comments:
  "map_sum id
     (\<lambda>r. (summary r, rating r, pizzaPopularity r, feelings r, orderAgain r, tiers r,
           wordCloud r, coldPizza r))
     (processData h u1 rawData)
   = map_sum id
       (\<lambda>r. (summary r, rating r, pizzaPopularity r, feelings r, orderAgain r, tiers r,
             wordCloud r, coldPizza r))
       (processData h u2 rawData)
   \<and> (\<exists>data v1 v2.
         map_sum id comments (processData hostWithoutDates v1 (Some data))
         \<noteq> map_sum id comments (processData hostWithoutDates v2 (Some data)))"
proof
  show "map_sum id
     (\<lambda>r. (summary r, rating r, pizzaPopularity r, feelings r, orderAgain r, tiers r,
           wordCloud r, coldPizza r))
     (processData h u1 rawData)
   = map_sum id
       (\<lambda>r. (summary r, rating r, pizzaPopularity r, feelings r, orderAgain r, tiers r,
             wordCloud r, coldPizza r))
       (processData h u2 rawData)"
    by (cases rawData) (auto simp: processData_def)
next
  let ?data = "[[(str ''Comments'', str ''aaaaaaaaaaa'')], [(str ''Comments'', str ''bbbbbbbbbbb'')]]"
  have a: "processComments (\<lambda>i. 0) ?data = [str ''bbbbbbbbbbb'', str ''aaaaaaaaaaa'']"
    by (subst processComments_two) (simp add: roundDouble_zero)
  have b: "processComments (\<lambda>i. 1 / 2) ?data = [str ''aaaaaaaaaaa'', str ''bbbbbbbbbbb'']"
    by (subst processComments_two) (simp add: roundDouble_one)
  have ne: "[str ''bbbbbbbbbbb'', str ''aaaaaaaaaaa''] \<noteq> [str ''aaaaaaaaaaa'', str ''bbbbbbbbbbb'']"
    by (simp add: str_def)
  have "map_sum id comments (processData hostWithoutDates (\<lambda>i. 0) (Some ?data))
        \<noteq> map_sum id comments (processData hostWithoutDates (\<lambda>i. 1 / 2) (Some ?data))"
    using ne by (simp add: processData_def a b)
  then show "\<exists>data v1 v2.
         map_sum id comments (processData hostWithoutDates v1 (Some data))
         \<noteq> map_sum id comments (processData hostWithoutDates v2 (Some data))"
    by blast
qed

section \<open>The rating reducer on three rows\<close>

text \<open>
  C7 as amended: on the rows with the ratings 8, 10 and bad, the average is 9, the count
  is 2, and the distribution maps 8 and 10 to 1 and every other bucket from 1 to 10 to 0.
\<close>

theorem processRating_scenario:
  "processRating [[(str ''rating'', str ''8'')], [(str ''rating'', str ''10'')],
                  [(str ''rating'', str ''bad'')]]
    = \<lparr>average = 9, count = 2,
       distribution =
         [(1, 0), (2, 0), (3, 0), (4, 0), (5, 0), (6, 0), (7, 0), (8, 1), (9, 0), (10, 1)]\<rparr>"
  by (simp add: processRating_def ratingsOf_def getValue_rating_only parseFloat_8
      parseFloat_10 parseFloat_bad roundDouble_numeral bumpBucket_def orZero_def
      mathRound_numeral buckets_init)

text \<open>
  C7 as stated fails: the distribution has the key 1, with the count 0, and the mapping
  of 8 to 1 and 10 to 1 has no such key.
\<close>

theorem processRating_distribution_counterexample:
  "map_of (distribution (processRating 
       [[(str ''rating'', str ''8'')], [(str ''rating'', str ''10'')],
        [(str ''rating'', str ''bad'')]])) 1 = Some 0
   \<and> map_of [(8 :: int, 1 :: nat), (10, 1)] 1 = None"
  by (simp add: processRating_def ratingsOf_def getValue_rating_only parseFloat_8
      parseFloat_10 parseFloat_bad roundDouble_numeral bumpBucket_def orZero_def mathRound_numeral
      buckets_init)


section \<open>The closed-set classifiers\<close>

lemma orderAgainRow_classify:
  "orderAgainRow row ym =
   (case classify_spec (getValue row OrderAgain) orderAgainRules_spec of
      None \<Rightarrow> ym
    | Some cat \<Rightarrow> if cat = str ''yes'' then (fst ym + 1, snd ym) else (fst ym, snd ym + 1))"
  by (simp add: orderAgainRow_def classify_spec_def orderAgainRules_spec_def Let_def
      toLowerCase_def str_def)

lemma tierRow_classify:
  "tierRow row ts =
   (case classify_spec (getValue row Tier) tierRules_spec of
      None \<Rightarrow> ts
    | Some cat \<Rightarrow>
        AList.map_entry cat (\<lambda>t. t\<lparr>tier_entry.count := tier_entry.count t + 1\<rparr>) ts)"
  by (simp add: tierRow_def classify_spec_def tierRules_spec_def Let_def
      toLowerCase_def str_def)

lemma coldPizzaRow_classify:
  "coldPizzaRow row ps =
   (case classify_spec (getValue row ColdPizza) coldPizzaRules_spec of
      None \<Rightarrow> ps
    | Some cat \<Rightarrow>
        AList.map_entry cat
          (\<lambda>p. p\<lparr>preference_entry.count := preference_entry.count p + 1\<rparr>) ps)"
  by (simp add: coldPizzaRow_def classify_spec_def coldPizzaRules_spec_def Let_def
      toLowerCase_def str_def)

lemma classify_spec_Cons:
  "classify_spec t (rule # rules) =
     (if list_ex (\<lambda>kw. str_includes (toLowerCase t) kw) (snd rule) then Some (fst rule)
      else classify_spec t rules)"
  by (simp add: classify_spec_def)

lemma classify_scenario:
  "classify_spec (str ''Sometimes, if desperate'') coldPizzaRules_spec = Some (str ''If Desperate'')"
  by (simp add: classify_spec_def coldPizzaRules_spec_def toLowerCase_def str_def)

lemma getValue_cold: "getValue [(str ''Cold Pizza'', v)] ColdPizza = v"
  by (simp add: getValue_def findColumn_def columnMatches_def toLowerCase_def str_def)

lemma processColdPizza_scenario:
  "map (\<lambda>it. (label it, cold_item.count it))
     (items (processColdPizza [[(str ''Cold Pizza'', str ''Sometimes, if desperate'')]]))
   = [(str ''Leftovers Please!'', 0), (str ''If Desperate'', 1), (str ''Never!'', 0)]"
proof -
  have ne: "str ''Sometimes, if desperate'' \<noteq> []" by (simp add: str_def)
  have step: "coldPizzaRow [(str ''Cold Pizza'', str ''Sometimes, if desperate'')] preferencesInit
    = [(str ''Leftovers Please!'', \<lparr>preference_entry.count = 0, color = str ''#27AE60''\<rparr>),
      (str ''If Desperate'', \<lparr>preference_entry.count = 1, color = str ''#F39C12''\<rparr>),
      (str ''Never!'', \<lparr>preference_entry.count = 0, color = str ''#C0392B''\<rparr>)]"
    by (simp add: coldPizzaRow_classify getValue_cold classify_scenario preferencesInit_def)
       (simp add: str_def)
  have idx: "\<not> isArrayIndex (str ''Leftovers Please!'')" "\<not> isArrayIndex (str ''If Desperate'')"
    "\<not> isArrayIndex (str ''Never!'')"
    by (simp_all add: isArrayIndex_def isDigit_def str_def)
  show ?thesis
    by (simp add: processColdPizza_def step objectEntries_def objectValues_def idx)
qed

lemma orderAgainRow_tie:
  "orderAgainRow [(str ''Order Again'', str ''No... yes!'')] (0, 0) = (1, 0)"
  by (simp add: orderAgainRow_def getValue_def findColumn_def columnMatches_def toLowerCase_def str_def)


text \<open>
  C4: for each of the three reducers, the step for one row adds one to the counter of
  the category that the ordered rules of the specification give for the value of the
  row, and changes nothing when no rule matches. A rule that matches wins over every
  later rule. The value \<open>Sometimes, if desperate\<close> falls under \<open>If Desperate\<close>, alone in
  a data set it gives the counts 0, 1 and 0; a value with both \<open>no\<close> and \<open>yes\<close> counts as
  yes for orderAgain.
\<close>

theorem classifiers_follow_ordered_rules:
  "orderAgainRow row ym =
     (case classify_spec (getValue row OrderAgain) orderAgainRules_spec of
        None \<Rightarrow> ym
      | Some cat \<Rightarrow> if cat = str ''yes'' then (fst ym + 1, snd ym) else (fst ym, snd ym + 1))
   \<and> tierRow row ts =
     (case classify_spec (getValue row Tier) tierRules_spec of
        None \<Rightarrow> ts
      | Some cat \<Rightarrow>
          AList.map_entry cat (\<lambda>t. t\<lparr>tier_entry.count := tier_entry.count t + 1\<rparr>) ts)
   \<and> coldPizzaRow row ps =
     (case classify_spec (getValue row ColdPizza) coldPizzaRules_spec of
        None \<Rightarrow> ps
      | Some cat \<Rightarrow>
          AList.map_entry cat
            (\<lambda>p. p\<lparr>preference_entry.count := preference_entry.count p + 1\<rparr>) ps)
   \<and> classify_spec t [] = None
   \<and> classify_spec t (rule # rules) =
       (if list_ex (\<lambda>kw. str_includes (toLowerCase t) kw) (snd rule) then Some (fst rule)
        else classify_spec t rules)
   \<and> classify_spec (str ''Sometimes, if desperate'') coldPizzaRules_spec
       = Some (str ''If Desperate'')
   \<and> map (\<lambda>it. (label it, cold_item.count it))
       (items (processColdPizza [[(str ''Cold Pizza'', str ''Sometimes, if desperate'')]]))
       = [(str ''Leftovers Please!'', 0), (str ''If Desperate'', 1), (str ''Never!'', 0)]
   \<and> orderAgainRow [(str ''Order Again'', str ''No... yes!'')] (0, 0) = (1, 0)"
proof (intro conjI)
  show "classify_spec t [] = None"
    by (simp add: classify_spec_def)
qed (rule orderAgainRow_classify tierRow_classify coldPizzaRow_classify classify_spec_Cons
      classify_scenario processColdPizza_scenario orderAgainRow_tie)+

section \<open>The feelings reducer\<close>


















section \<open>Pizza popularity: the total\<close>






lemma sum_list_bump:
  "sum_list (map snd (AList.update k (orZero (map_of kvs k) + 1) kvs))
     = sum_list (map snd kvs) + 1"
  by (induction kvs) (auto simp: orZero_def)

















section \<open>Bounds that the rounding keeps\<close>

lemma round_between:
  assumes "of_nat a \<le> x" "x \<le> of_nat b" "b \<le> 2 ^ 53"
  shows "of_nat a \<le> roundDouble x \<and> roundDouble x \<le> of_nat b"
proof -
  have "a \<le> b" using assms(1,2) by (meson of_nat_le_iff order_trans)
  then have a: "a \<le> 2 ^ 53" using assms(3) by simp
  have "roundDouble (of_nat a) \<le> roundDouble x" "roundDouble x \<le> roundDouble (of_nat b)"
    using assms(1,2) by (auto intro: roundDouble_mono)
  then show ?thesis
    using roundDouble_nat [OF a] roundDouble_nat [OF assms(3)] by simp
qed

lemma mathRound_between:
  assumes "of_nat a \<le> x" "x \<le> of_nat b"
  shows "int a \<le> mathRound x \<and> mathRound x \<le> int b"
proof -
  have "of_int (int a) \<le> x + 1 / 2" using assms(1) by simp
  then have 1: "int a \<le> \<lfloor>x + 1 / 2\<rfloor>" by (simp only: le_floor_iff)
  have "x + 1 / 2 < of_int (int b + 1)" using assms(2) by simp
  then have "\<lfloor>x + 1 / 2\<rfloor> < int b + 1" by (simp only: floor_less_iff)
  with 1 show ?thesis by (simp add: mathRound_def)
qed



section \<open>Percentages\<close>
















text \<open>
  The rounding of doubles shows in the percentages: 23 of 40 give 57, where the exact
  quotient, 57.5, would round to 58.
\<close>

lemma percentOf_23_of_40: "percentOf 23 40 = 57"
  unfolding percentOf_def mathRound_def by code_simp

section \<open>The rating reducer\<close>

lemma retained_range: "retained v = Some x \<Longrightarrow> 1 \<le> x \<and> x \<le> 10"
  by (cases v) (auto split: if_splits)

lemma ratingsOf_range: "x \<in> set (ratingsOf data) \<Longrightarrow> 1 \<le> x \<and> x \<le> 10"
  unfolding ratingsOf_def
  by (induction data) (auto split: option.splits dest: retained_range)

lemma retained_iff:
  "(\<exists>y. retained v = Some y)
     \<longleftrightarrow> (case v of Finite x \<Rightarrow> 1 \<le> x \<and> x \<le> 10 | _ \<Rightarrow> False)"
  by (cases v) auto

lemma length_ratingsOf:
  "length (ratingsOf data)
     = length (filter (\<lambda>row. case parseFloat (getValue row Rating) of
                               Finite x \<Rightarrow> 1 \<le> x \<and> x \<le> 10 | _ \<Rightarrow> False) data)"
  unfolding ratingsOf_def
  by (simp add: List.map_filter_def retained_iff)

lemma foldl_round_bounds:
  shows "\<forall>x \<in> set xs. 1 \<le> x \<and> x \<le> 10 \<Longrightarrow> of_nat k \<le> a \<Longrightarrow> a \<le> of_nat (10 * k)
         \<Longrightarrow> 10 * (k + length xs) \<le> 2 ^ 53
         \<Longrightarrow> of_nat (k + length xs) \<le> foldl (\<lambda>a b. roundDouble (a + b)) a xs
             \<and> foldl (\<lambda>a b. roundDouble (a + b)) a xs \<le> of_nat (10 * (k + length xs))"
proof (induction xs arbitrary: a k)
  case Nil
  then show ?case by simp
next
  case (Cons x xs)
  have x: "1 \<le> x" "x \<le> 10" using Cons.prems(1) by auto
  have lo: "of_nat (Suc k) \<le> a + x" using Cons.prems(2) x(1) by simp
  have hi: "a + x \<le> of_nat (10 * Suc k)" using Cons.prems(3) x(2) by simp
  have b: "10 * Suc k \<le> (2 :: nat) ^ 53" using Cons.prems(4) by simp
  from round_between [OF lo hi b]
  have r: "of_nat (Suc k) \<le> roundDouble (a + x)" "roundDouble (a + x) \<le> of_nat (10 * Suc k)"
    by simp_all
  have "of_nat (Suc k + length xs) \<le> foldl (\<lambda>a b. roundDouble (a + b)) (roundDouble (a + x)) xs
        \<and> foldl (\<lambda>a b. roundDouble (a + b)) (roundDouble (a + x)) xs
            \<le> of_nat (10 * (Suc k + length xs))"
    by (rule Cons.IH [OF _ r]) (use Cons.prems in auto)
  then show ?case by simp
qed

lemma average_bounds:
  assumes "\<forall>x \<in> set xs. 1 \<le> x \<and> x \<le> 10" "xs \<noteq> []" "10 * length xs \<le> 2 ^ 53"
  shows "1 \<le> roundDouble (of_int (mathRound (roundDouble
              (roundDouble (foldl (\<lambda>a b. roundDouble (a + b)) 0 xs / of_nat (length xs)) * 10))) / 10)
       \<and> roundDouble (of_int (mathRound (roundDouble
              (roundDouble (foldl (\<lambda>a b. roundDouble (a + b)) 0 xs / of_nat (length xs)) * 10))) / 10)
          \<le> 10"
proof -
  let ?n = "length xs"
  let ?s = "foldl (\<lambda>a b. roundDouble (a + b)) 0 xs"
  have n: "0 < ?n" using assms(2) by simp
  have "of_nat (0 + ?n) \<le> ?s \<and> ?s \<le> of_nat (10 * (0 + ?n))"
    by (rule foldl_round_bounds [OF assms(1)]) (use assms(3) in simp_all)
  then have s: "of_nat ?n \<le> ?s" "?s \<le> 10 * of_nat ?n" by simp_all
  have q: "of_nat 1 \<le> ?s / of_nat ?n" "?s / of_nat ?n \<le> of_nat 10"
    using s n by (simp_all add: le_divide_eq divide_le_eq)
  have "of_nat 1 \<le> roundDouble (?s / of_nat ?n) \<and> roundDouble (?s / of_nat ?n) \<le> of_nat 10"
    by (rule round_between [OF q]) simp
  then have "of_nat 10 \<le> roundDouble (?s / of_nat ?n) * 10"
    "roundDouble (?s / of_nat ?n) * 10 \<le> of_nat 100"
    by simp_all
  then have "of_nat 10 \<le> roundDouble (roundDouble (?s / of_nat ?n) * 10)
      \<and> roundDouble (roundDouble (?s / of_nat ?n) * 10) \<le> of_nat 100"
    by (rule round_between) simp
  then have "int 10 \<le> mathRound (roundDouble (roundDouble (?s / of_nat ?n) * 10))
      \<and> mathRound (roundDouble (roundDouble (?s / of_nat ?n) * 10)) \<le> int 100"
    by (intro mathRound_between) simp_all
  then have m: "of_nat 1 \<le> (of_int (mathRound (roundDouble (roundDouble (?s / of_nat ?n) * 10))) / 10 :: rat)"
    "(of_int (mathRound (roundDouble (roundDouble (?s / of_nat ?n) * 10))) / 10 :: rat) \<le> of_nat 10"
    by (simp_all add: le_divide_eq divide_le_eq)
  have "of_nat 1 \<le> roundDouble (of_int (mathRound (roundDouble (roundDouble (?s / of_nat ?n) * 10))) / 10)
    \<and> roundDouble (of_int (mathRound (roundDouble (roundDouble (?s / of_nat ?n) * 10))) / 10) \<le> of_nat 10"
    by (rule round_between [OF m]) simp
  then show ?thesis by simp
qed

lemma sum_list_bumpBucket:
  "sum_list (map snd (bumpBucket k d)) = sum_list (map snd d) + 1"
  unfolding bumpBucket_def by (rule sum_list_bump)

lemma sum_fold_bumpBucket:
  "sum_list (map snd (fold (\<lambda>r d. bumpBucket (mathRound r) d) rs d))
     = sum_list (map snd d) + length rs"
  by (induction rs arbitrary: d) (auto simp: sum_list_bumpBucket)


text \<open>
  C5: on fewer than \<open>2^32\<close> rows (the bound on the length of an array), the count is the
  number of rows whose rating value parses as a number from 1 to 10; when the count is
  positive, the average is from 1 to 10 and the buckets of the distribution add up to the
  count; when the count is 0, the result has the average 0 and an empty distribution.
\<close>

theorem processRating_count_average_distribution:
  assumes "length data < 2 ^ 32"
  shows "rating_result.count (processRating data)
           = length (filter (\<lambda>row. case parseFloat (getValue row Rating) of
                               Finite x \<Rightarrow> 1 \<le> x \<and> x \<le> 10 | _ \<Rightarrow> False) data)
    \<and> (0 < rating_result.count (processRating data) \<longrightarrow>
          1 \<le> average (processRating data) \<and> average (processRating data) \<le> 10
          \<and> sum_list (map snd (distribution (processRating data)))
              = rating_result.count (processRating data))
    \<and> (rating_result.count (processRating data) = 0 \<longrightarrow>
          processRating data = \<lparr>average = 0, count = 0, distribution = []\<rparr>)"
proof -
  let ?rs = "ratingsOf data"
  have cnt: "rating_result.count (processRating data) = length ?rs"
    by (simp add: processRating_def Let_def)
  have len: "length ?rs \<le> length data"
    by (simp add: length_ratingsOf)
  have "10 * length data \<le> 10 * 2 ^ 32" using assms by simp
  also have "\<dots> \<le> (2 :: nat) ^ 53" by simp
  finally have bound: "10 * length ?rs \<le> 2 ^ 53" using len by simp
  have rng: "\<forall>x \<in> set ?rs. 1 \<le> x \<and> x \<le> 10" using ratingsOf_range by blast
  have avg: "1 \<le> average (processRating data) \<and> average (processRating data) \<le> 10"
    if "?rs \<noteq> []"
    using average_bounds [OF rng that bound] that
    by (simp add: processRating_def Let_def)
  have dist: "sum_list (map snd (distribution (processRating data))) = length ?rs"
    if "?rs \<noteq> []"
    using that by (simp add: processRating_def Let_def sum_fold_bumpBucket buckets_init)
  have empty: "processRating data = \<lparr>average = 0, count = 0, distribution = []\<rparr>"
    if "?rs = []"
    using that by (simp add: processRating_def Let_def)
  show ?thesis
    using avg dist empty by (auto simp: cnt length_ratingsOf [symmetric])
qed


theorem processRating_count_average_distribution_witness:
  "rating_result.count (processRating 
       [[(str ''rating'', str ''8'')], [(str ''rating'', str ''10'')],
        [(str ''rating'', str ''bad'')]]) = 2
   \<and> 1 \<le> average (processRating 
       [[(str ''rating'', str ''8'')], [(str ''rating'', str ''10'')],
        [(str ''rating'', str ''bad'')]])
   \<and> average (processRating 
       [[(str ''rating'', str ''8'')], [(str ''rating'', str ''10'')],
        [(str ''rating'', str ''bad'')]]) \<le> 10
   \<and> sum_list (map snd (distribution (processRating 
       [[(str ''rating'', str ''8'')], [(str ''rating'', str ''10'')],
        [(str ''rating'', str ''bad'')]]))) = 2
   \<and> processRating [[(str ''rating'', str ''bad'')]]
       = \<lparr>average = 0, count = 0, distribution = []\<rparr>"
proof -
  have l3: "length [[(str ''rating'', str ''8'')], [(str ''rating'', str ''10'')],
        [(str ''rating'', str ''bad'')]] < (2 :: nat) ^ 32"
    by simp
  have l1: "length [[(str ''rating'', str ''bad'')]] < (2 :: nat) ^ 32"
    by simp
  from processRating_count_average_distribution [OF l3]
    processRating_count_average_distribution [OF l1]
  show ?thesis
    by (simp add: getValue_rating_only parseFloat_8 parseFloat_10 parseFloat_bad)
qed

section \<open>Rows without a column\<close>

lemma map_cong_sameValues:
  "list_all2 sameValues d1 d2 \<Longrightarrow> map (\<lambda>row. getValue row f) d1 = map (\<lambda>row. getValue row f) d2"
  by (induction d1 d2 rule: list_all2_induct) (auto simp: sameValues_def)

lemma processData_cong:
  assumes "list_all2 sameValues d1 d2"
  shows "processData h u (Some d1) = processData h u (Some d2)"
proof -
  have "length d1 = length d2" using assms by (rule list_all2_lengthD)
  then show ?thesis
    by (simp add: processData_def
        processSummary_reads_timestamp [OF map_cong_sameValues [OF assms]]
        processRating_reads_rating [OF map_cong_sameValues [OF assms]]
        processPizzaPopularity_reads_pizzaType [OF map_cong_sameValues [OF assms]]
        processFeelings_reads_feeling [OF map_cong_sameValues [OF assms]]
        processOrderAgain_reads_orderAgain [OF map_cong_sameValues [OF assms]]
        processTiers_reads_tier [OF map_cong_sameValues [OF assms]]
        processWordCloud_reads_oneWord [OF map_cong_sameValues [OF assms]]
        processColdPizza_reads_coldPizza [OF map_cong_sameValues [OF assms]]
        processComments_reads_comments [OF map_cong_sameValues [OF assms]])
qed


lemma sameValues_refl: "sameValues a a"
  by (simp add: sameValues_def)

lemma parseFloat_empty: "parseFloat [] = NaN"
  by (simp add: parseFloat_def trimStart_def str_def)

lemma map_filter_append:
  "List.map_filter g (xs @ ys) = List.map_filter g xs @ List.map_filter g ys"
  by (simp add: List.map_filter_def)

lemma processRating_skips_empty:
  assumes "getValue row Rating = []"
  shows "processRating (before @ row # after) = processRating (before @ after)"
proof -
  have "ratingsOf (before @ row # after) = ratingsOf (before @ after)"
    by (simp add: ratingsOf_def map_filter_append assms parseFloat_empty)
  then show ?thesis by (simp add: processRating_def)
qed

lemma processSummary_skips_empty:
  assumes "getValue row Timestamp = []"
  shows "dateRange (processSummary h (before @ row # after))
           = dateRange (processSummary h (before @ after))"
  by (simp add: processSummary_def assms)

lemma processPizzaPopularity_skips_empty:
  assumes "getValue row PizzaType = []"
  shows "processPizzaPopularity (before @ row # after) = processPizzaPopularity (before @ after)"
  by (simp add: processPizzaPopularity_def pizzaRow_def assms)

lemma processFeelings_skips_empty:
  assumes "getValue row Feeling = []"
  shows "processFeelings (before @ row # after) = processFeelings (before @ after)"
  by (simp add: processFeelings_def feelingRow_def assms)

lemma processOrderAgain_skips_empty:
  assumes "getValue row OrderAgain = []"
  shows "processOrderAgain (before @ row # after) = processOrderAgain (before @ after)"
  by (simp add: processOrderAgain_def orderAgainRow_def assms)

lemma processTiers_skips_empty:
  assumes "getValue row Tier = []"
  shows "processTiers (before @ row # after) = processTiers (before @ after)"
  by (simp add: processTiers_def tierRow_def assms)

lemma processWordCloud_skips_empty:
  assumes "getValue row OneWord = []"
  shows "processWordCloud (before @ row # after) = processWordCloud (before @ after)"
  by (simp add: processWordCloud_def wordRow_def assms)

lemma processColdPizza_skips_empty:
  assumes "getValue row ColdPizza = []"
  shows "processColdPizza (before @ row # after) = processColdPizza (before @ after)"
  by (simp add: processColdPizza_def coldPizzaRow_def assms)

lemma processComments_skips_empty:
  assumes "getValue row Comments = []"
  shows "processComments u (before @ row # after) = processComments u (before @ after)"
  by (simp add: processComments_def assms)


text \<open>
  C10: when the field resolves to no column in one row, and in another row to a column
  that holds the empty string, and the two rows agree on the values of the other fields,
  then the value of the field is the empty string in both rows, and the pipeline gives
  the same outcome on two inputs that differ only in having the one row or the other.
  Every reducer skips a row whose value for its field is the empty string: the
  aggregate is the one of the input without the row (the summary still counts the row
  among the responses).
\<close>

theorem missing_column_like_empty_value:
  assumes "findColumn r1 f = None" "findColumn r2 f = Some c" "map_of r2 c = Some []"
    and "\<forall>g. g \<noteq> f \<longrightarrow> getValue r1 g = getValue r2 g"
  shows "getValue r1 f = [] \<and> getValue r2 f = []
    \<and> processData h u (Some (before @ r1 # after)) = processData h u (Some (before @ r2 # after))
    \<and> (getValue row Timestamp = [] \<longrightarrow>
         dateRange (processSummary h (before @ row # after))
           = dateRange (processSummary h (before @ after)))
    \<and> (getValue row Rating = [] \<longrightarrow>
         processRating (before @ row # after) = processRating (before @ after))
    \<and> (getValue row PizzaType = [] \<longrightarrow>
         processPizzaPopularity (before @ row # after) = processPizzaPopularity (before @ after))
    \<and> (getValue row Feeling = [] \<longrightarrow>
         processFeelings (before @ row # after) = processFeelings (before @ after))
    \<and> (getValue row OrderAgain = [] \<longrightarrow>
         processOrderAgain (before @ row # after) = processOrderAgain (before @ after))
    \<and> (getValue row Tier = [] \<longrightarrow>
         processTiers (before @ row # after) = processTiers (before @ after))
    \<and> (getValue row OneWord = [] \<longrightarrow>
         processWordCloud (before @ row # after) = processWordCloud (before @ after))
    \<and> (getValue row ColdPizza = [] \<longrightarrow>
         processColdPizza (before @ row # after) = processColdPizza (before @ after))
    \<and> (getValue row Comments = [] \<longrightarrow>
         processComments u (before @ row # after) = processComments u (before @ after))"
proof -
  have v: "getValue r1 f = []" "getValue r2 f = []"
    using assms(1-3) by (simp_all add: getValue_def)
  with assms(4) have "sameValues r1 r2"
    unfolding sameValues_def by metis
  then have "list_all2 sameValues (before @ r1 # after) (before @ r2 # after)"
    by (intro list_all2_appendI list_all2_refl list.rel_intros) (simp_all add: sameValues_refl)
  from processData_cong [OF this] v
  have main: "getValue r1 f = [] \<and> getValue r2 f = []
    \<and> processData h u (Some (before @ r1 # after)) = processData h u (Some (before @ r2 # after))"
    by simp
  from main show ?thesis
    by (intro conjI impI)
      (simp
       | erule processSummary_skips_empty processRating_skips_empty
           processPizzaPopularity_skips_empty processFeelings_skips_empty
           processOrderAgain_skips_empty processTiers_skips_empty processWordCloud_skips_empty
           processColdPizza_skips_empty processComments_skips_empty)+
qed

lemma getValue_witness_none: "findColumn [(str ''Pizza Type'', str ''Cheese'')] Rating = None"
  by (simp add: findColumn_def columnMatches_def toLowerCase_def str_def)

lemma getValue_witness_some:
  "findColumn [(str ''Pizza Type'', str ''Cheese''), (str ''Score'', [])] Rating
     = Some (str ''Score'')"
  by (simp add: findColumn_def columnMatches_def toLowerCase_def str_def)

lemma getValue_witness_value:
  "map_of [(str ''Pizza Type'', str ''Cheese''), (str ''Score'', [])] (str ''Score'') = Some []"
  by (simp add: str_def)

lemma getValue_witness_others:
  "\<forall>g. g \<noteq> Rating \<longrightarrow> getValue [(str ''Pizza Type'', str ''Cheese'')] g
     = getValue [(str ''Pizza Type'', str ''Cheese''), (str ''Score'', [])] g"
proof (intro allI impI)
  fix g :: field
  assume "g \<noteq> Rating"
  then show "getValue [(str ''Pizza Type'', str ''Cheese'')] g
     = getValue [(str ''Pizza Type'', str ''Cheese''), (str ''Score'', [])] g"
    by (cases g)
      (simp_all add: getValue_def findColumn_def columnMatches_def toLowerCase_def str_def)
qed

lemma getValue_name_only: "getValue [(str ''Name'', v)] g = []"
  by (cases g)
    (simp_all add: getValue_def findColumn_def columnMatches_def toLowerCase_def str_def)

theorem missing_column_like_empty_value_witness:
  "findColumn [(str ''Pizza Type'', str ''Cheese'')] Rating = None
   \<and> findColumn [(str ''Pizza Type'', str ''Cheese''), (str ''Score'', [])] Rating
       = Some (str ''Score'')
   \<and> getValue [(str ''Pizza Type'', str ''Cheese'')] Rating = []
   \<and> getValue [(str ''Pizza Type'', str ''Cheese''), (str ''Score'', [])] Rating = []
   \<and> processData hostWithoutDates (\<lambda>i. 0) (Some [[(str ''Pizza Type'', str ''Cheese'')]])
       = processData hostWithoutDates (\<lambda>i. 0)
           (Some [[(str ''Pizza Type'', str ''Cheese''), (str ''Score'', [])]])
   \<and> dateRange (processSummary hostWithoutDates [[(str ''Name'', str ''Ada'')]])
       = dateRange (processSummary hostWithoutDates [])
   \<and> processRating [[(str ''Name'', str ''Ada'')]] = processRating []
   \<and> processPizzaPopularity [[(str ''Name'', str ''Ada'')]] = processPizzaPopularity []
   \<and> processFeelings [[(str ''Name'', str ''Ada'')]] = processFeelings []
   \<and> processOrderAgain [[(str ''Name'', str ''Ada'')]]
       = processOrderAgain []
   \<and> processTiers [[(str ''Name'', str ''Ada'')]] = processTiers []
   \<and> processWordCloud [[(str ''Name'', str ''Ada'')]] = processWordCloud []
   \<and> processColdPizza [[(str ''Name'', str ''Ada'')]] = processColdPizza []
   \<and> processComments (\<lambda>i. 0) [[(str ''Name'', str ''Ada'')]]
       = processComments (\<lambda>i. 0) []"
  using
    missing_column_like_empty_value
      [OF getValue_witness_none getValue_witness_some getValue_witness_value
        getValue_witness_others,
        where h = hostWithoutDates and u = "\<lambda>i. 0" and before = "[]" and after = "[]"
          and row = "[(str ''Name'', str ''Ada'')]"]
    getValue_witness_none getValue_witness_some
  by (simp add: getValue_name_only)

end
